theory Spec2Isabelle
  imports Main
begin

section \<open>Python values used by the sources\<close>

text \<open>
  A Python \<open>str\<close> is a sequence of code points. It is modelled as a \<open>string\<close> whose
  characters are the code points themselves, so the model covers the code points below
  256 (Latin-1). Every literal of the sources lies in that range: the only non-ASCII
  one is the accented i of the Maria group, code point 0xED.
\<close>

datatype error = KeyError | AttributeError | TypeError | ValueError | RemoteError

text \<open>\<open>s.startswith(p)\<close>.\<close>

fun startswith :: "string \<Rightarrow> string \<Rightarrow> bool" where
  "startswith s [] = True"
| "startswith [] (p # ps) = False"
| "startswith (c # cs) (p # ps) = (c = p \<and> startswith cs ps)"

text \<open>\<open>sub in s\<close> for two strings: \<open>sub\<close> occurs in \<open>s\<close> as a contiguous block.\<close>

fun contains :: "string \<Rightarrow> string \<Rightarrow> bool" where
  "contains sub [] = (sub = [])"
| "contains sub (c # cs) = (startswith (c # cs) sub \<or> contains sub cs)"

text \<open>
  \<open>str.lower()\<close> on Latin-1 text: the letters A to Z (65 to 90) and the accented capitals
  192 to 222, the multiplication sign 215 apart, move up by 32, which sets bit 5 of the
  code point; every other code point stays.
\<close>

fun lower_char :: "char \<Rightarrow> char" where
  "lower_char (Char b0 b1 b2 b3 b4 b5 b6 b7) =
     (let n = (of_char (Char b0 b1 b2 b3 b4 b5 b6 b7) :: nat)
      in if (65 \<le> n \<and> n \<le> 90) \<or> (192 \<le> n \<and> n \<le> 222 \<and> n \<noteq> 215)
         then Char b0 b1 b2 b3 b4 True b6 b7
         else Char b0 b1 b2 b3 b4 b5 b6 b7)"

definition lower :: "string \<Rightarrow> string" where
  "lower s = map lower_char s"

section \<open>common/enums.py\<close>

datatype AgentGroup =
  ELENA | ELENA_AFFA | ELENA_NOAFFA | ELENA_BANNER | MARIA | ARTESAN | COACH | OTHER

text \<open>The members in definition order, which is the order \<open>for group in AgentGroup\<close> visits.\<close>

definition AgentGroup_members :: "AgentGroup list" where
  "AgentGroup_members =
     [ELENA, ELENA_AFFA, ELENA_NOAFFA, ELENA_BANNER, MARIA, ARTESAN, COACH, OTHER]"

text \<open>\<open>group.value\<close>.\<close>

fun AgentGroup_value :: "AgentGroup \<Rightarrow> string" where
  "AgentGroup_value ELENA = ''Elena''"
| "AgentGroup_value ELENA_AFFA = ''Elena AFFA''"
| "AgentGroup_value ELENA_NOAFFA = ''Elena NOAFFA''"
| "AgentGroup_value ELENA_BANNER = ''Elena Banner''"
| "AgentGroup_value MARIA = ''Mar'' @ [CHR 0xED] @ ''a''"
| "AgentGroup_value ARTESAN = ''Artesan''"
| "AgentGroup_value COACH = ''Coach''"
| "AgentGroup_value OTHER = ''Other''"

datatype VariableType = STRING | BOOLEAN | FLOAT | INTEGER

fun VariableType_value :: "VariableType \<Rightarrow> string" where
  "VariableType_value STRING = ''string''"
| "VariableType_value BOOLEAN = ''boolean''"
| "VariableType_value FLOAT = ''number''"
| "VariableType_value INTEGER = ''integer''"

section \<open>helpers/agent\_group\_selector.py\<close>

text \<open>
  \<open>generate_dictionary_keys\<close>: a fresh dictionary with one key per member of the enum,
  each bound to a fresh empty list.
\<close>

definition generate_dictionary_keys :: "string \<rightharpoonup> string list" where
  "generate_dictionary_keys =
     foldl (\<lambda>dictionary agent_group. dictionary(AgentGroup_value agent_group \<mapsto> []))
       Map.empty AgentGroup_members"

text \<open>
  \<open>get_agent_groups\<close>: the name is lowered once; the first family whose substring occurs
  decides, and only the Elena family appends further groups.
\<close>

definition get_agent_groups :: "string \<Rightarrow> AgentGroup list" where
  "get_agent_groups agent_name =
     (let name = lower agent_name
      in if contains ''elena'' name then
           [ELENA]
           @ (if contains ''affa'' name \<and> \<not> contains ''noaffa'' name then [ELENA_AFFA] else [])
           @ (if contains ''noaffa'' name then [ELENA_NOAFFA] else [])
           @ (if contains ''banner'' name then [ELENA_BANNER] else [])
         else if contains (''mar'' @ [CHR 0xED] @ ''a'') name \<or> contains ''maria'' name then
           [MARIA]
         else if contains ''coach'' name then [COACH]
         else if contains ''artesan'' name then [ARTESAN]
         else [OTHER])"

definition get_agent_groups_as_strings :: "string \<Rightarrow> string list" where
  "get_agent_groups_as_strings agent_name = map AgentGroup_value (get_agent_groups agent_name)"

section \<open>helpers/time\_helpers.py\<close>

text \<open>
  A \<open>date\<close> is represented by its day number, the days from 1970-01-01 to it in the
  proleptic Gregorian calendar (\<open>date.toordinal() - 719163\<close>); a naive \<open>datetime\<close> by
  its date and its time of day in whole seconds.
\<close>

type_synonym date = int

record datetime =
  dt_date :: date
  hour :: nat
  minute :: nat
  second :: nat

text \<open>
  The local time zone belongs to the host. \<open>time.localtime(u)\<close>, made into a naive
  \<open>datetime\<close>, is a parameter of every function that converts a timestamp: the local
  date and time of a POSIX timestamp, or the error raised when the platform cannot
  convert the instant or the year leaves the range 1 to 9999 of the datetime type.
\<close>

type_synonym localtime = "int \<Rightarrow> error + datetime"

text \<open>
  A host whose zone keeps one offset from UTC, in seconds: local time is the timestamp
  plus the offset, 86400 seconds a day, from 0001-01-01 00:00:00 to 9999-12-31 23:59:59.
  The host converts every instant of those years; a platform with a narrower \<open>time_t\<close>
  raises earlier. Outside those years CPython raises \<open>ValueError\<close>, \<open>OverflowError\<close> or
  \<open>OSError\<close> according to the platform, and the model has \<open>ValueError\<close> for all three.
\<close>

definition fixed_offset_localtime :: "int \<Rightarrow> localtime" where
  "fixed_offset_localtime off ts =
     (let l = ts + off
      in if l < - 62135596800 \<or> 253402300799 < l then Inl ValueError
         else Inr \<lparr>dt_date = l div 86400,
                   hour = nat ((l mod 86400) div 3600),
                   minute = nat ((l mod 3600) div 60),
                   second = nat (l mod 60)\<rparr>)"

definition utc_localtime :: localtime where
  "utc_localtime = fixed_offset_localtime 0"

text \<open>
  A host whose zone is given by its offset from UTC at each instant, in seconds.
\<close>

definition zone_localtime :: "(int \<Rightarrow> int) \<Rightarrow> localtime" where
  "zone_localtime zone ts = fixed_offset_localtime (zone ts) ts"

text \<open>
  A zone with summer time: one hour ahead of UTC, two hours between 2025-03-30 01:00 UTC
  and 2025-10-26 01:00 UTC.
\<close>

definition summer_time_zone :: "int \<Rightarrow> int" where
  "summer_time_zone ts = (if 1743296400 \<le> ts \<and> ts < 1761440400 then 7200 else 3600)"

text \<open>
  A zone ten hours ahead of UTC that moves to eleven hours ahead at 2025-10-04 16:00 UTC,
  as Australia/Sydney did. The transition lies between the local and the UTC midnight of
  2025-10-05, day number 20366.
\<close>

definition southern_summer_time_zone :: "int \<Rightarrow> int" where
  "southern_summer_time_zone ts = (if ts < 1759593600 then 36000 else 39600)"

text \<open>
  A zone three hours behind UTC that moves to two hours behind at 2018-11-04 03:00 UTC,
  as America/Sao\_Paulo did: its clocks went from 2018-11-03 23:59:59 to 2018-11-04
  01:00:00, and the local day 2018-11-04, day number 17839, has no midnight.
\<close>

definition midnight_gap_zone :: "int \<Rightarrow> int" where
  "midnight_gap_zone ts = (if ts < 1541300400 then - 10800 else - 7200)"

text \<open>
  A host whose zone moved from ten hours behind UTC to fourteen hours ahead at the instant
  1325239200, the end of the local day 2011-12-29, as Pacific/Apia did: its clocks went
  from 2011-12-29 23:59:59 to 2011-12-31 00:00:00, and the local day 2011-12-30, day
  number 15338, never took place.
\<close>

definition skipped_day_localtime :: localtime where
  "skipped_day_localtime =
     zone_localtime (\<lambda>ts. if ts < 1325239200 then - 36000 else 50400)"

text \<open>
  The conversions of the \<open>datetime\<close> module, on a platform other than Windows.
  \<open>(dt - epoch) // timedelta(0, 1)\<close> is the count of seconds of a naive datetime.
\<close>

definition naive_seconds :: "datetime \<Rightarrow> int" where
  "naive_seconds dt =
     dt_date dt * 86400 + int (hour dt) * 3600 + int (minute dt) * 60 + int (second dt)"

text \<open>The helper \<open>local(u)\<close> of the module.\<close>

definition local_of :: "localtime \<Rightarrow> int \<Rightarrow> error + int" where
  "local_of localtime u =
     (case localtime u of Inl e \<Rightarrow> Inl e | Inr dt \<Rightarrow> Inr (naive_seconds dt))"

text \<open>
  \<open>datetime.fromtimestamp(t)\<close> for an integer \<open>t\<close>: the local time of the instant.
  To set the \<open>fold\<close> flag it also converts the instant one day earlier and, when a
  transition set the clocks back in between, one more instant; either conversion can
  raise. The flag itself is read neither by \<open>date()\<close> nor by \<open>strftime\<close>.
\<close>

definition fromtimestamp :: "localtime \<Rightarrow> int \<Rightarrow> error + datetime" where
  "fromtimestamp localtime t =
     (case localtime t of
        Inl e \<Rightarrow> Inl e
      | Inr result \<Rightarrow>
          (case localtime (t - 86400) of
             Inl e \<Rightarrow> Inl e
           | Inr probe1 \<Rightarrow>
               (let trans = naive_seconds result - naive_seconds probe1 - 86400
                in if trans < 0
                   then (case localtime (t + trans) of
                           Inl e \<Rightarrow> Inl e
                         | Inr probe2 \<Rightarrow> Inr result)
                   else Inr result)))"

text \<open>
  \<open>datetime._mktime\<close> with \<open>fold = 0\<close>, for the naive local time that counts \<open>t\<close>
  seconds: it looks for an instant \<open>u\<close> with \<open>local(u) = t\<close>, trying the offset in
  force at \<open>t\<close> read as an instant and then the offset found a day before or at the
  first try; when neither try is a solution the local time lies in a gap and the later
  instant is returned.
\<close>

definition mktime :: "localtime \<Rightarrow> int \<Rightarrow> error + int" where
  "mktime localtime t =
     (case local_of localtime t of
        Inl e \<Rightarrow> Inl e
      | Inr lt \<Rightarrow>
          (let a = lt - t; u1 = t - a
           in case local_of localtime u1 of
                Inl e \<Rightarrow> Inl e
              | Inr t1 \<Rightarrow>
                  (case (if t1 = t
                         then (case local_of localtime (u1 - 86400) of
                                 Inl e \<Rightarrow> Inl e
                               | Inr lt2 \<Rightarrow> Inr (lt2 - (u1 - 86400)))
                         else Inr (t1 - u1)) of
                     Inl e \<Rightarrow> Inl e
                   | Inr b \<Rightarrow>
                       if t1 = t \<and> a = b then Inr u1
                       else
                        (let u2 = t - b
                         in case local_of localtime u2 of
                              Inl e \<Rightarrow> Inl e
                            | Inr t2 \<Rightarrow>
                                if t2 = t then Inr u2
                                else if t1 = t then Inr u1
                                else Inr (max u1 u2)))))"

text \<open>\<open>str(n)\<close> for a natural number: its decimal digits.\<close>

definition digit_char :: "nat \<Rightarrow> char" where
  "digit_char d = ''0123456789'' ! d"

fun str_nat :: "nat \<Rightarrow> string" where
  "str_nat n = (if n < 10 then [digit_char n] else str_nat (n div 10) @ [digit_char (n mod 10)])"

declare str_nat.simps [simp del]

text \<open>
  The format specification \<open>02\<close> of an integer: zero padding to width 2, the sign counted
  in the width and written first.
\<close>

definition format_02 :: "int \<Rightarrow> string" where
  "format_02 n =
     (if n < 0 then ''-'' @ str_nat (nat (- n))
      else if n < 10 then ''0'' @ str_nat (nat n)
      else str_nat (nat n))"

text \<open>\<open>dt.strftime("%H:%M:%S")\<close>: each field in two digits.\<close>

definition strftime_HMS :: "datetime \<Rightarrow> string" where
  "strftime_HMS dt =
     format_02 (int (hour dt)) @ '':'' @ format_02 (int (minute dt)) @ '':''
     @ format_02 (int (second dt))"

text \<open>
  \<open>date_to_unix\<close>: \<open>datetime.combine\<close> with the minimal time is midnight of the date,
  \<open>raw_date * 86400\<close> naive seconds. \<open>timestamp()\<close> adds the microseconds, zero here,
  as a float and \<open>int\<close> takes the integer back; both are exact, a timestamp of a date
  being far below the 53 bits of a float.
\<close>

definition date_to_unix :: "localtime \<Rightarrow> date \<Rightarrow> error + int" where
  "date_to_unix localtime raw_date = mktime localtime (raw_date * 86400)"

definition unix_to_date :: "localtime \<Rightarrow> int \<Rightarrow> error + date" where
  "unix_to_date localtime ts =
     (case fromtimestamp localtime ts of Inl e \<Rightarrow> Inl e | Inr dt \<Rightarrow> Inr (dt_date dt))"

definition unix_to_time :: "localtime \<Rightarrow> int \<Rightarrow> error + string" where
  "unix_to_time localtime ts =
     (case fromtimestamp localtime ts of Inl e \<Rightarrow> Inl e | Inr dt \<Rightarrow> Inr (strftime_HMS dt))"

text \<open>\<open>unix_to_date(date_to_unix(d))\<close>, an error of either call passed on.\<close>

definition date_round_trip :: "localtime \<Rightarrow> date \<Rightarrow> error + date" where
  "date_round_trip localtime d =
     (case date_to_unix localtime d of Inl e \<Rightarrow> Inl e | Inr ts \<Rightarrow> unix_to_date localtime ts)"


section \<open>The remote platform\<close>

text \<open>
  The client library and the service behind it are not part of the sources. The objects
  they return are records of the attributes the sources read; each remote call is a
  function from its request to its response, or to the error it raises.
\<close>

record ConversationSummary =
  s_conversation_id :: string
  s_agent_id :: string
  s_agent_name :: string
  s_start_time_unix_secs :: int
  s_call_duration_secs :: int
  s_status :: string
  s_call_successful :: string
  s_direction :: "string option"

record ListResponse =
  r_conversations :: "ConversationSummary list"
  r_has_more :: bool
  r_next_cursor :: "string option"

text \<open>The keyword arguments of the listing call, the \<open>parameters\<close> dictionary.\<close>

record parameters =
  page_size :: "int option"
  cursor :: "string option"
  call_start_after_unix :: "int option"
  call_start_before_unix :: "int option"

type_synonym conversations_list = "parameters \<Rightarrow> error + ListResponse"

record LiteralJsonSchemaProperty =
  p_type :: string
  p_description :: "string option"
  p_other :: "(string \<times> string) list"

record PlatformSettings =
  data_collection :: "(string \<rightharpoonup> LiteralJsonSchemaProperty) option"

record AgentInfo =
  platform_settings :: "PlatformSettings option"

record AgentSummary =
  a_agent_id :: string
  a_name :: string

record agents_client =
  list_agents :: "error + AgentSummary list"
  fetch_agent :: "string \<Rightarrow> error + AgentInfo"
  update_agent :: "string \<Rightarrow> (string \<rightharpoonup> LiteralJsonSchemaProperty) \<Rightarrow> error option"

section \<open>connections/agent\_connection.py\<close>

text \<open>
  Attributes in Python: the class body binds \<open>agents\<close> and \<open>agents_ids\<close> once, on the
  class object. No method ever assigns \<open>self.agents\<close> or \<open>self.agents_ids\<close>, so on every
  instance these names resolve to the objects of the class, and \<open>self.agents[k] = v\<close>
  and \<open>self.agents_ids.append(v)\<close> mutate those. \<open>self.agent_groups_ids = ...\<close> in
  \<open>__init__\<close> is an assignment: it binds the attribute on the instance. The class
  record holds the objects bound on the class, the instance record the attributes bound
  on an instance.
\<close>

record AgentConnection_class =
  agents :: "string \<rightharpoonup> AgentInfo"
  agents_ids :: "string list"

record AgentConnection =
  agent_groups_ids :: "string \<rightharpoonup> string list"

text \<open>\<open>dictionary[key].append(x)\<close>: the subscript raises when the key is missing.\<close>

definition append_at :: "(string \<rightharpoonup> string list) \<Rightarrow> string \<Rightarrow> string
    \<Rightarrow> error + (string \<rightharpoonup> string list)" where
  "append_at dictionary key x =
     (case dictionary key of
        None \<Rightarrow> Inl KeyError
      | Some xs \<Rightarrow> Inr (dictionary(key \<mapsto> xs @ [x])))"

text \<open>\<open>for group in groups: dictionary[group.value].append(x)\<close>.\<close>

fun append_to_groups :: "(string \<rightharpoonup> string list) \<Rightarrow> string \<Rightarrow> AgentGroup list
    \<Rightarrow> error + (string \<rightharpoonup> string list)" where
  "append_to_groups dictionary x [] = Inr dictionary"
| "append_to_groups dictionary x (agent_group # groups) =
     (case append_at dictionary (AgentGroup_value agent_group) x of
        Inl e \<Rightarrow> Inl e
      | Inr dictionary' \<Rightarrow> append_to_groups dictionary' x groups)"

text \<open>The loop of \<open>AgentConnection.__init__\<close> over the listed agents.\<close>

fun AgentConnection_init_agents :: "agents_client \<Rightarrow> AgentConnection_class \<times> AgentConnection
    \<Rightarrow> AgentSummary list \<Rightarrow> error + AgentConnection_class \<times> AgentConnection" where
  "AgentConnection_init_agents client (cls, self) [] = Inr (cls, self)"
| "AgentConnection_init_agents client (cls, self) (agent # rest) =
     (let agent_id = a_agent_id agent; agent_name = a_name agent
      in case fetch_agent client agent_id of
           Inl e \<Rightarrow> Inl e
         | Inr agent_info \<Rightarrow>
             (let groups = get_agent_groups agent_name;
                  cls' = cls\<lparr>agents := (agents cls)(agent_id \<mapsto> agent_info),
                             agents_ids := agents_ids cls @ [agent_id]\<rparr>
              in case append_to_groups (agent_groups_ids self) agent_id groups of
                   Inl e \<Rightarrow> Inl e
                 | Inr d \<Rightarrow>
                     AgentConnection_init_agents client
                       (cls', self\<lparr>agent_groups_ids := d\<rparr>) rest))"

definition AgentConnection_init :: "agents_client \<Rightarrow> AgentConnection_class
    \<Rightarrow> error + AgentConnection_class \<times> AgentConnection" where
  "AgentConnection_init client cls =
     (case list_agents client of
        Inl e \<Rightarrow> Inl e
      | Inr response_agents \<Rightarrow>
          AgentConnection_init_agents client
            (cls, \<lparr>agent_groups_ids = generate_dictionary_keys\<rparr>) response_agents)"

definition get_all_agents :: "AgentConnection_class \<times> AgentConnection
    \<Rightarrow> (string \<rightharpoonup> AgentInfo)" where
  "get_all_agents s = agents (fst s)"

definition get_all_agent_ids :: "AgentConnection_class \<times> AgentConnection \<Rightarrow> string list" where
  "get_all_agent_ids s = agents_ids (fst s)"

definition get_agent_group_ids :: "AgentConnection \<Rightarrow> AgentGroup \<Rightarrow> error + string list" where
  "get_agent_group_ids self agent_group =
     (case agent_groups_ids self (AgentGroup_value agent_group) of
        None \<Rightarrow> Inl KeyError
      | Some ids \<Rightarrow> Inr ids)"

text \<open>\<open>self.agents.get(agent_id)\<close>: \<open>None\<close> for an unknown id.\<close>

definition get_agent :: "AgentConnection_class \<Rightarrow> string \<Rightarrow> AgentInfo option" where
  "get_agent cls agent_id = agents cls agent_id"

section \<open>connections/conversation\_connection.py\<close>

text \<open>The dictionary \<open>conversation_info\<close> that \<open>build\<close> makes for a conversation.\<close>

record conversation_info =
  conversation_id :: string
  agent_id :: string
  agent_name :: string
  start_date :: date
  start_time :: string
  call_duration_secs :: int
  call_duration_timestamp :: string
  status :: string
  successful :: string
  direction :: "string option"
  agent_groups :: "string list"

text \<open>
  The class body binds \<open>parameters\<close>, \<open>accepted_agent_ids\<close>, \<open>conversations\<close>,
  \<open>conversation_ids\<close> and \<open>conversation_ids_per_agent_id\<close> on the class, and no
  method assigns any of them through \<open>self\<close>: every instance reads and mutates the
  objects of the class. \<open>agent_connection\<close> (\<open>None\<close> on the class) and
  \<open>conversation_ids_per_agent_group\<close> (an empty dictionary on the class, never
  mutated) are assigned through \<open>self\<close>, in \<open>set_accepted_agent_groups\<close> and in
  \<open>build\<close>: the instance record holds them, \<open>None\<close> while the instance has no
  binding of its own and the name still resolves to the class.
\<close>

record ConversationConnection_class =
  parameters :: parameters
  accepted_agent_ids :: "string list"
  conversations :: "string \<rightharpoonup> conversation_info"
  conversation_ids :: "string list"
  conversation_ids_per_agent_id :: "string \<rightharpoonup> string"

record ConversationConnection =
  agent_connection :: "AgentConnection option"
  conversation_ids_per_agent_group :: "(string \<rightharpoonup> string list) option"

text \<open>The state of the class objects when the modules have been imported.\<close>

definition AgentConnection_class_body :: AgentConnection_class where
  "AgentConnection_class_body = \<lparr>agents = Map.empty, agents_ids = []\<rparr>"

definition ConversationConnection_class_body :: ConversationConnection_class where
  "ConversationConnection_class_body =
     \<lparr>parameters = \<lparr>page_size = None, cursor = None, call_start_after_unix = None,
                     call_start_before_unix = None\<rparr>,
      accepted_agent_ids = [],
      conversations = Map.empty,
      conversation_ids = [],
      conversation_ids_per_agent_id = Map.empty\<rparr>"

text \<open>\<open>__init__\<close> only creates the client: the new instance binds no container.\<close>

definition ConversationConnection_init :: ConversationConnection where
  "ConversationConnection_init =
     \<lparr>agent_connection = None, conversation_ids_per_agent_group = None\<rparr>"

text \<open>
  \<open>self.conversation_ids_per_agent_group\<close> read through an instance: its own binding,
  or the empty dictionary of the class.
\<close>

definition per_agent_group :: "ConversationConnection \<Rightarrow> (string \<rightharpoonup> string list)" where
  "per_agent_group self =
     (case conversation_ids_per_agent_group self of None \<Rightarrow> Map.empty | Some d \<Rightarrow> d)"

text \<open>The body of the loop over the conversations of a page.\<close>

definition build_conversation :: "localtime
    \<Rightarrow> ConversationConnection_class \<times> ConversationConnection \<Rightarrow> ConversationSummary
    \<Rightarrow> error + ConversationConnection_class \<times> ConversationConnection" where
  "build_conversation localtime s conversation =
     (let cls = fst s; self = snd s;
          conversation_id = s_conversation_id conversation;
          agent_id = s_agent_id conversation;
          agent_name = s_agent_name conversation
      in if length (accepted_agent_ids cls) > 0 \<and> agent_id \<notin> set (accepted_agent_ids cls)
         then Inr s
         else
          (let groups = get_agent_groups agent_name;
               group_strings = get_agent_groups_as_strings agent_name
           in case unix_to_date localtime (s_start_time_unix_secs conversation) of
                Inl e \<Rightarrow> Inl e
              | Inr d \<Rightarrow>
             (case unix_to_time localtime (s_start_time_unix_secs conversation) of
                Inl e \<Rightarrow> Inl e
              | Inr t \<Rightarrow>
             (case unix_to_time localtime (s_call_duration_secs conversation) of
                Inl e \<Rightarrow> Inl e
              | Inr dur \<Rightarrow>
             (let conversation_info =
                    \<lparr>conversation_id = conversation_id,
                     agent_id = agent_id,
                     agent_name = agent_name,
                     start_date = d,
                     start_time = t,
                     call_duration_secs = s_call_duration_secs conversation,
                     call_duration_timestamp = dur,
                     status = s_status conversation,
                     successful = s_call_successful conversation,
                     direction = s_direction conversation,
                     agent_groups = group_strings\<rparr>;
                   cls' = cls
                    \<lparr>conversations := (conversations cls)(conversation_id \<mapsto> conversation_info),
                     conversation_ids := conversation_ids cls @ [conversation_id],
                     conversation_ids_per_agent_id :=
                       (conversation_ids_per_agent_id cls)(agent_id \<mapsto> conversation_id)\<rparr>
              in case append_to_groups (per_agent_group self) conversation_id groups of
                   Inl e \<Rightarrow> Inl e
                 | Inr d' \<Rightarrow>
                     Inr (cls', self\<lparr>conversation_ids_per_agent_group := Some d'\<rparr>))))))"

text \<open>\<open>for conversation in response.conversations\<close>.\<close>

fun build_page :: "localtime
    \<Rightarrow> ConversationConnection_class \<times> ConversationConnection \<Rightarrow> ConversationSummary list
    \<Rightarrow> error + ConversationConnection_class \<times> ConversationConnection" where
  "build_page localtime s [] = Inr s"
| "build_page localtime s (conversation # rest) =
     (case build_conversation localtime s conversation of
        Inl e \<Rightarrow> Inl e
      | Inr s' \<Rightarrow> build_page localtime s' rest)"

text \<open>\<open>if next_cursor:\<close> holds for a cursor that is neither \<open>None\<close> nor empty.\<close>

definition set_cursor :: "string option \<Rightarrow> parameters \<Rightarrow> parameters" where
  "set_cursor next_cursor p =
     (case next_cursor of
        None \<Rightarrow> p
      | Some c \<Rightarrow> if c = [] then p else p\<lparr>cursor := Some c\<rparr>)"

text \<open>
  \<open>while has_more\<close>: the loop runs for as long as the service reports more pages, so
  it need not end. The result is \<open>None\<close> when it does not.
\<close>

partial_function (option) build_loop :: "localtime \<Rightarrow> conversations_list
    \<Rightarrow> bool \<Rightarrow> string option \<Rightarrow> ConversationConnection_class \<times> ConversationConnection
    \<Rightarrow> (error + ConversationConnection_class \<times> ConversationConnection) option" where
  "build_loop localtime list has_more next_cursor s =
     (if has_more then
        (let cls = (fst s)\<lparr>parameters := set_cursor next_cursor (parameters (fst s))\<rparr>
         in case list (parameters cls) of
              Inl e \<Rightarrow> Some (Inl e)
            | Inr response \<Rightarrow>
                (case build_page localtime (cls, snd s) (r_conversations response) of
                   Inl e \<Rightarrow> Some (Inl e)
                 | Inr s' \<Rightarrow>
                     build_loop localtime list (r_has_more response)
                       (r_next_cursor response) s'))
      else Some (Inr s))"

definition build :: "localtime \<Rightarrow> conversations_list
    \<Rightarrow> ConversationConnection_class \<times> ConversationConnection
    \<Rightarrow> (error + ConversationConnection_class \<times> ConversationConnection) option" where
  "build localtime list s =
     (let self = (snd s)\<lparr>conversation_ids_per_agent_group := Some generate_dictionary_keys\<rparr>;
          cls = (fst s)\<lparr>parameters := (parameters (fst s))\<lparr>page_size := Some 100\<rparr>\<rparr>
      in build_loop localtime list True None (cls, self))"

definition set_accepted_agent_ids :: "ConversationConnection_class \<times> ConversationConnection
    \<Rightarrow> string list \<Rightarrow> ConversationConnection_class \<times> ConversationConnection" where
  "set_accepted_agent_ids s agent_ids =
     ((fst s)\<lparr>accepted_agent_ids := accepted_agent_ids (fst s) @ agent_ids\<rparr>, snd s)"

text \<open>The loop of \<open>set_accepted_agent_groups\<close> over the groups.\<close>

fun set_accepted_agent_groups_loop :: "AgentConnection
    \<Rightarrow> ConversationConnection_class \<times> ConversationConnection \<Rightarrow> AgentGroup list
    \<Rightarrow> error + ConversationConnection_class \<times> ConversationConnection" where
  "set_accepted_agent_groups_loop connection s [] = Inr s"
| "set_accepted_agent_groups_loop connection s (agent_group # rest) =
     (case get_agent_group_ids connection agent_group of
        Inl e \<Rightarrow> Inl e
      | Inr group_ids \<Rightarrow>
          set_accepted_agent_groups_loop connection (set_accepted_agent_ids s group_ids) rest)"

text \<open>
  \<open>set_accepted_agent_groups\<close> builds the agent catalog on first use, which lists and
  fetches the agents and so also changes the objects of the \<open>AgentConnection\<close> class.
\<close>

definition set_accepted_agent_groups :: "agents_client
    \<Rightarrow> AgentConnection_class \<times> ConversationConnection_class \<times> ConversationConnection
    \<Rightarrow> AgentGroup list
    \<Rightarrow> error + AgentConnection_class \<times> ConversationConnection_class \<times> ConversationConnection"
  where
  "set_accepted_agent_groups client w groups =
     (let acls = fst w; cls = fst (snd w); self = snd (snd w)
      in case (case agent_connection self of
                 None \<Rightarrow> AgentConnection_init client acls
               | Some connection \<Rightarrow> Inr (acls, connection)) of
           Inl e \<Rightarrow> Inl e
         | Inr (acls', connection) \<Rightarrow>
             (case set_accepted_agent_groups_loop connection
                     (cls, self\<lparr>agent_connection := Some connection\<rparr>) groups of
                Inl e \<Rightarrow> Inl e
              | Inr s' \<Rightarrow> Inr (acls', s')))"

definition get_all_conversations_info :: "ConversationConnection_class \<times> ConversationConnection
    \<Rightarrow> (string \<rightharpoonup> conversation_info)" where
  "get_all_conversations_info s = conversations (fst s)"

definition get_all_conversation_ids :: "ConversationConnection_class \<times> ConversationConnection
    \<Rightarrow> string list" where
  "get_all_conversation_ids s = conversation_ids (fst s)"

definition get_conversation_ids_from_agent :: "ConversationConnection_class \<times> ConversationConnection
    \<Rightarrow> string \<Rightarrow> error + string" where
  "get_conversation_ids_from_agent s aid =
     (case conversation_ids_per_agent_id (fst s) aid of
        None \<Rightarrow> Inl KeyError
      | Some cid \<Rightarrow> Inr cid)"

definition get_conversation_ids_from_agent_group ::
    "ConversationConnection_class \<times> ConversationConnection \<Rightarrow> AgentGroup
    \<Rightarrow> error + string list" where
  "get_conversation_ids_from_agent_group s agent_group =
     (case per_agent_group (snd s) (AgentGroup_value agent_group) of
        None \<Rightarrow> Inl KeyError
      | Some ids \<Rightarrow> Inr ids)"

text \<open>
  The conversations that the listing returns to \<open>build\<close>, page after page: the same
  walk as \<open>build_loop\<close>, which reads the request parameters and nothing else of the
  state, collecting each page instead of indexing it.
\<close>

partial_function (option) listed_conversations :: "conversations_list
    \<Rightarrow> bool \<Rightarrow> string option \<Rightarrow> parameters
    \<Rightarrow> (error + ConversationSummary list) option" where
  "listed_conversations list has_more next_cursor p =
     (if has_more then
        (let p' = set_cursor next_cursor p
         in case list p' of
              Inl e \<Rightarrow> Some (Inl e)
            | Inr response \<Rightarrow>
                Option.bind
                  (listed_conversations list (r_has_more response) (r_next_cursor response) p')
                  (\<lambda>later. Some (case later of
                       Inl e \<Rightarrow> Inl e
                     | Inr cs \<Rightarrow> Inr (r_conversations response @ cs))))
      else Some (Inr []))"

section \<open>processors/downloaders/conversation\_downloader.py\<close>

text \<open>
  A dictionary that is iterated is an association list in insertion order; its keys are
  distinct. The detail record of a conversation carries only what
  \<open>process_dynamic_variables\<close> reads.
\<close>

record 'v ConversationInitiationClientData =
  dynamic_variables :: "(string \<times> 'v) list option"

record 'v RawDetails =
  conversation_initiation_client_data :: "'v ConversationInitiationClientData option"

text \<open>\<open>d.pop(key)\<close> without a default: removes the key, raises when it is missing.\<close>

definition pop :: "string \<Rightarrow> (string \<times> 'v) list \<Rightarrow> error + (string \<times> 'v) list" where
  "pop key d =
     (if key \<in> fst ` set d then Inr (filter (\<lambda>kv. fst kv \<noteq> key) d) else Inl KeyError)"

text \<open>The loop over the keys of the first copy, popping from the second.\<close>

fun process_dynamic_variables_keys :: "string list \<Rightarrow> (string \<times> 'v) list
    \<Rightarrow> error + (string \<times> 'v) list" where
  "process_dynamic_variables_keys [] dv = Inr dv"
| "process_dynamic_variables_keys (key # keys) dv =
     (case (if startswith key ''system'' then pop key dv else Inr dv) of
        Inl e \<Rightarrow> Inl e
      | Inr dv1 \<Rightarrow>
          (case (if key = ''email'' \<or> key = ''phone'' \<or> key = ''secret_user_id''
                    \<or> key = ''secret_object_id''
                 then pop key dv1 else Inr dv1) of
             Inl e \<Rightarrow> Inl e
           | Inr dv2 \<Rightarrow> process_dynamic_variables_keys keys dv2))"

definition process_dynamic_variables :: "'v RawDetails \<Rightarrow> error + (string \<times> 'v) list" where
  "process_dynamic_variables raw_details =
     (case conversation_initiation_client_data raw_details of
        None \<Rightarrow> Inr []
      | Some client_data \<Rightarrow>
          (case dynamic_variables client_data of
             None \<Rightarrow> Inr []
           | Some d \<Rightarrow>
               (let raw_dynamic_variables = d; dv = d
                in process_dynamic_variables_keys (map fst raw_dynamic_variables) dv)))"

section \<open>processors/updaters/data\_collection\_updater.py\<close>

text \<open>
  The class body binds \<open>agent_ids\<close> to a list on the class; \<open>variable_name\<close>,
  \<open>variable_type\<close> and \<open>variable_prompt\<close> are annotations only, so reading one
  before its setter ran raises. \<open>set_all_agents\<close> assigns \<open>self.agent_ids\<close> the list
  object that the catalog returns, which is the \<open>agents_ids\<close> list of the
  \<open>AgentConnection\<close> class: \<open>agent_ids_rebound\<close> records that the instance name now
  denotes that object instead of the list of its own class.
\<close>

record DataCollectionUpdater_class =
  agent_ids :: "string list"

record DataCollectionUpdater =
  connection :: AgentConnection
  variable_name :: "string option"
  variable_type :: "string option"
  variable_prompt :: "string option"
  agent_ids_rebound :: bool

definition DataCollectionUpdater_class_body :: DataCollectionUpdater_class where
  "DataCollectionUpdater_class_body = \<lparr>agent_ids = []\<rparr>"

definition DataCollectionUpdater_init :: "agents_client
    \<Rightarrow> AgentConnection_class \<times> DataCollectionUpdater_class
    \<Rightarrow> error + AgentConnection_class \<times> DataCollectionUpdater_class \<times> DataCollectionUpdater"
  where
  "DataCollectionUpdater_init client w =
     (case AgentConnection_init client (fst w) of
        Inl e \<Rightarrow> Inl e
      | Inr (acls, c) \<Rightarrow>
          Inr (acls, snd w,
               \<lparr>connection = c, variable_name = None, variable_type = None,
                variable_prompt = None, agent_ids_rebound = False\<rparr>))"

definition set_variable_name :: "DataCollectionUpdater \<Rightarrow> string \<Rightarrow> DataCollectionUpdater" where
  "set_variable_name self name = self\<lparr>variable_name := Some name\<rparr>"

definition set_variable_type :: "DataCollectionUpdater \<Rightarrow> VariableType \<Rightarrow> DataCollectionUpdater"
  where
  "set_variable_type self t = self\<lparr>variable_type := Some (VariableType_value t)\<rparr>"

definition set_variable_prompt :: "DataCollectionUpdater \<Rightarrow> string \<Rightarrow> DataCollectionUpdater"
  where
  "set_variable_prompt self prompt = self\<lparr>variable_prompt := Some prompt\<rparr>"

text \<open>\<open>self.agent_ids\<close>: the list the name denotes for this instance.\<close>

definition selected_agent_ids ::
    "AgentConnection_class \<times> DataCollectionUpdater_class \<times> DataCollectionUpdater
    \<Rightarrow> string list" where
  "selected_agent_ids w =
     (if agent_ids_rebound (snd (snd w)) then agents_ids (fst w)
      else agent_ids (fst (snd w)))"

text \<open>\<open>self.agent_ids.extend(...)\<close> mutates the list the name denotes.\<close>

definition set_agent_group ::
    "AgentConnection_class \<times> DataCollectionUpdater_class \<times> DataCollectionUpdater
    \<Rightarrow> AgentGroup
    \<Rightarrow> error + AgentConnection_class \<times> DataCollectionUpdater_class \<times> DataCollectionUpdater"
  where
  "set_agent_group w g =
     (let acls = fst w; ucls = fst (snd w); self = snd (snd w)
      in case get_agent_group_ids (connection self) g of
           Inl e \<Rightarrow> Inl e
         | Inr ids \<Rightarrow>
             if agent_ids_rebound self
             then Inr (acls\<lparr>agents_ids := agents_ids acls @ ids\<rparr>, ucls, self)
             else Inr (acls, ucls\<lparr>agent_ids := agent_ids ucls @ ids\<rparr>, self))"

definition set_all_agents ::
    "AgentConnection_class \<times> DataCollectionUpdater_class \<times> DataCollectionUpdater
    \<Rightarrow> AgentConnection_class \<times> DataCollectionUpdater_class \<times> DataCollectionUpdater" where
  "set_all_agents w = (fst w, fst (snd w), (snd (snd w))\<lparr>agent_ids_rebound := True\<rparr>)"

text \<open>
  The loop of \<open>update\<close>. Each step reads the cached agent, builds the new property,
  stores it in the agent's own \<open>data_collection\<close> dictionary (the cached object is
  mutated in place) and sends that dictionary as the only entry of
  \<open>platform_settings\<close>. The result lists the update calls made, each with the agent id
  it was addressed to and the data-collection mapping it carried.
\<close>

fun update_agents :: "agents_client \<Rightarrow> DataCollectionUpdater \<Rightarrow> AgentConnection_class
    \<Rightarrow> string list
    \<Rightarrow> error + AgentConnection_class \<times> (string \<times> (string \<rightharpoonup> LiteralJsonSchemaProperty)) list"
  where
  "update_agents client self acls [] = Inr (acls, [])"
| "update_agents client self acls (aid # rest) =
     (case get_agent acls aid of
        None \<Rightarrow> Inl AttributeError
      | Some agent \<Rightarrow>
     (case platform_settings agent of
        None \<Rightarrow> Inl AttributeError
      | Some settings \<Rightarrow>
     (case variable_type self of
        None \<Rightarrow> Inl AttributeError
      | Some vtype \<Rightarrow>
     (case variable_prompt self of
        None \<Rightarrow> Inl AttributeError
      | Some prompt \<Rightarrow>
     (let variable_settings = \<lparr>p_type = vtype, p_description = Some prompt, p_other = []\<rparr>
      in case variable_name self of
           None \<Rightarrow> Inl AttributeError
         | Some name \<Rightarrow>
        (case data_collection settings of
           None \<Rightarrow> Inl TypeError
         | Some dc \<Rightarrow>
        (let dc' = dc(name \<mapsto> variable_settings);
             agent' = agent\<lparr>platform_settings := Some (settings\<lparr>data_collection := Some dc'\<rparr>)\<rparr>;
             acls' = acls\<lparr>agents := (agents acls)(aid \<mapsto> agent')\<rparr>
         in case update_agent client aid dc' of
              Some e \<Rightarrow> Inl e
            | None \<Rightarrow>
                (case update_agents client self acls' rest of
                   Inl e \<Rightarrow> Inl e
                 | Inr (acls'', calls) \<Rightarrow> Inr (acls'', (aid, dc') # calls)))))))))"

definition update :: "agents_client
    \<Rightarrow> AgentConnection_class \<times> DataCollectionUpdater_class \<times> DataCollectionUpdater
    \<Rightarrow> error + AgentConnection_class \<times> (string \<times> (string \<rightharpoonup> LiteralJsonSchemaProperty)) list"
  where
  "update client w = update_agents client (snd (snd w)) (fst w) (selected_agent_ids w)"

section \<open>Example data\<close>

definition conv1 :: ConversationSummary where
  "conv1 =
     \<lparr>s_conversation_id = ''conv_1'', s_agent_id = ''agent_1'', s_agent_name = ''Elena Banner'',
      s_start_time_unix_secs = 1766278800, s_call_duration_secs = 125, s_status = ''done'',
      s_call_successful = ''success'', s_direction = Some ''inbound''\<rparr>"

definition conv2 :: ConversationSummary where
  "conv2 =
     \<lparr>s_conversation_id = ''conv_2'', s_agent_id = ''agent_1'', s_agent_name = ''Elena Banner'',
      s_start_time_unix_secs = 1766282400, s_call_duration_secs = 59, s_status = ''done'',
      s_call_successful = ''success'', s_direction = Some ''inbound''\<rparr>"

definition conv3 :: ConversationSummary where
  "conv3 =
     \<lparr>s_conversation_id = ''conv_3'', s_agent_id = ''agent_2'', s_agent_name = ''MARIA ventas'',
      s_start_time_unix_secs = 1766286000, s_call_duration_secs = 6000, s_status = ''done'',
      s_call_successful = ''failure'', s_direction = None\<rparr>"

definition conv4 :: ConversationSummary where
  "conv4 =
     \<lparr>s_conversation_id = ''conv_4'', s_agent_id = ''agent_3'', s_agent_name = ''Coach'',
      s_start_time_unix_secs = 1766289600, s_call_duration_secs = 30, s_status = ''done'',
      s_call_successful = ''success'', s_direction = None\<rparr>"

text \<open>A listing of two pages: the second is served for the cursor the first hands out.\<close>

definition example_list :: conversations_list where
  "example_list p =
     (if cursor p = Some ''page_2''
      then Inr \<lparr>r_conversations = [conv2, conv3], r_has_more = False, r_next_cursor = None\<rparr>
      else Inr \<lparr>r_conversations = [conv1, conv4], r_has_more = True,
                r_next_cursor = Some ''page_2''\<rparr>)"

definition example_connection :: "ConversationConnection_class \<times> ConversationConnection" where
  "example_connection =
     set_accepted_agent_ids (ConversationConnection_class_body, ConversationConnection_init)
       [''agent_1'', ''agent_2'']"

definition example_schema :: "string \<rightharpoonup> LiteralJsonSchemaProperty" where
  "example_schema =
     [''budget'' \<mapsto> \<lparr>p_type = ''number'', p_description = Some ''Budget named by the caller'',
                       p_other = []\<rparr>]"

definition example_client :: agents_client where
  "example_client =
     \<lparr>list_agents = Inr [\<lparr>a_agent_id = ''agent_1'', a_name = ''Elena Banner''\<rparr>,
                         \<lparr>a_agent_id = ''agent_2'', a_name = ''MARIA ventas''\<rparr>,
                         \<lparr>a_agent_id = ''agent_3'', a_name = ''Coach''\<rparr>],
      fetch_agent =
        (\<lambda>aid. Inr \<lparr>platform_settings = Some \<lparr>data_collection = Some example_schema\<rparr>\<rparr>),
      update_agent = (\<lambda>aid pushed. None)\<rparr>"

definition example_prompt :: string where
  "example_prompt = ''True when a demo was agreed during the call, False otherwise''"

datatype dynamic_value = StrValue string | IntValue int

definition example_raw_details :: "dynamic_value RawDetails" where
  "example_raw_details =
     \<lparr>conversation_initiation_client_data = Some
        \<lparr>dynamic_variables = Some
           [(''system_x'', IntValue 1), (''email'', StrValue ''a@b.com''),
            (''phone'', StrValue ''123''), (''secret_user_id'', StrValue ''u1''),
            (''other'', StrValue ''v'')]\<rparr>\<rparr>"

section \<open>Substrings\<close>

lemma startswith_iff: "startswith s p \<longleftrightarrow> (\<exists>ss. s = p @ ss)"
  by (induction s p rule: startswith.induct) auto

lemma contains_iff: "contains sub s \<longleftrightarrow> (\<exists>ps ss. s = ps @ sub @ ss)"
proof (induction s)
  case Nil
  then show ?case by auto
next
  case (Cons c cs)
  show ?case
  proof
    assume "contains sub (c # cs)"
    then consider "startswith (c # cs) sub" | "contains sub cs" by auto
    then show "\<exists>ps ss. c # cs = ps @ sub @ ss"
    proof cases
      case 1
      then obtain ss where "c # cs = sub @ ss" by (auto simp: startswith_iff)
      then have "c # cs = [] @ sub @ ss" by simp
      then show ?thesis by blast
    next
      case 2
      then obtain ps ss where "cs = ps @ sub @ ss" using Cons.IH by auto
      then have "c # cs = (c # ps) @ sub @ ss" by simp
      then show ?thesis by blast
    qed
  next
    assume "\<exists>ps ss. c # cs = ps @ sub @ ss"
    then obtain ps ss where eq: "c # cs = ps @ sub @ ss" by auto
    show "contains sub (c # cs)"
    proof (cases ps)
      case Nil
      then have "startswith (c # cs) sub" using eq by (auto simp: startswith_iff)
      then show ?thesis by simp
    next
      case (Cons p ps')
      then have "cs = ps' @ sub @ ss" using eq by simp
      then have "contains sub cs" using Cons.IH by blast
      then show ?thesis by simp
    qed
  qed
qed

lemma contains_trans:
  assumes "contains a b" and "contains b c"
  shows "contains a c"
proof -
  obtain p1 s1 where b: "b = p1 @ a @ s1" using assms(1) by (auto simp: contains_iff)
  obtain p2 s2 where c: "c = p2 @ b @ s2" using assms(2) by (auto simp: contains_iff)
  have "c = (p2 @ p1) @ a @ (s1 @ s2)" using b c by simp
  then show ?thesis unfolding contains_iff by blast
qed

lemma affa_in_noaffa: "contains ''affa'' ''noaffa''"
  by simp

lemma no_affa_no_noaffa: "\<not> contains ''affa'' name \<Longrightarrow> \<not> contains ''noaffa'' name"
  using contains_trans [OF affa_in_noaffa] by blast

section \<open>The classifier\<close>

text \<open>
  C2: a name whose lowered form contains "elena" and "banner" but not "affa" (and so not
  "noaffa") is classified as exactly ELENA, ELENA_BANNER. Inside the Elena family the
  three sub-groups are decided independently of one another: ELENA_AFFA is present
  exactly when "affa" occurs and "noaffa" does not, ELENA_NOAFFA exactly when "noaffa"
  occurs, ELENA_BANNER exactly when "banner" occurs; outside the family ELENA_AFFA is
  never emitted.
\<close>

theorem get_agent_groups_elena_banner:
  "(contains ''elena'' (lower n) \<and> contains ''banner'' (lower n) \<and> \<not> contains ''affa'' (lower n)
      \<longrightarrow> \<not> contains ''noaffa'' (lower n) \<and> get_agent_groups n = [ELENA, ELENA_BANNER])
   \<and> (contains ''elena'' (lower n)
      \<longrightarrow> ELENA \<in> set (get_agent_groups n)
        \<and> (ELENA_AFFA \<in> set (get_agent_groups n)
              \<longleftrightarrow> contains ''affa'' (lower n) \<and> \<not> contains ''noaffa'' (lower n))
        \<and> (ELENA_NOAFFA \<in> set (get_agent_groups n) \<longleftrightarrow> contains ''noaffa'' (lower n))
        \<and> (ELENA_BANNER \<in> set (get_agent_groups n) \<longleftrightarrow> contains ''banner'' (lower n)))
   \<and> (ELENA_AFFA \<in> set (get_agent_groups n)
      \<longrightarrow> contains ''elena'' (lower n) \<and> contains ''affa'' (lower n)
        \<and> \<not> contains ''noaffa'' (lower n))"
proof (intro conjI impI)
  assume h: "contains ''elena'' (lower n) \<and> contains ''banner'' (lower n)
    \<and> \<not> contains ''affa'' (lower n)"
  then show no: "\<not> contains ''noaffa'' (lower n)" using no_affa_no_noaffa by blast
  show "get_agent_groups n = [ELENA, ELENA_BANNER]"
    using h no by (simp add: get_agent_groups_def Let_def)
next
  assume "ELENA_AFFA \<in> set (get_agent_groups n)"
  then show "contains ''elena'' (lower n)"
    by (auto simp: get_agent_groups_def Let_def split: if_splits)
next
  assume "ELENA_AFFA \<in> set (get_agent_groups n)"
  then show "contains ''affa'' (lower n)"
    by (auto simp: get_agent_groups_def Let_def split: if_splits)
next
  assume "ELENA_AFFA \<in> set (get_agent_groups n)"
  then show "\<not> contains ''noaffa'' (lower n)"
    by (auto simp: get_agent_groups_def Let_def split: if_splits)
qed (simp_all add: get_agent_groups_def Let_def)

theorem get_agent_groups_elena_banner_witness:
  "get_agent_groups ''Elena Banner'' = [ELENA, ELENA_BANNER]
   \<and> ELENA_AFFA \<in> set (get_agent_groups ''Elena AFFA Banner'')
   \<and> ELENA_BANNER \<in> set (get_agent_groups ''Elena AFFA Banner'')
   \<and> ELENA_NOAFFA \<notin> set (get_agent_groups ''Elena AFFA Banner'')
   \<and> contains ''affa'' (lower ''Elena AFFA Banner'')"
proof -
  have a: "contains ''elena'' (lower ''Elena Banner'') \<and> contains ''banner'' (lower ''Elena Banner'')
      \<and> \<not> contains ''affa'' (lower ''Elena Banner'')"
    by (simp add: lower_def)
  have b: "contains ''elena'' (lower ''Elena AFFA Banner'')
      \<and> contains ''affa'' (lower ''Elena AFFA Banner'')
      \<and> \<not> contains ''noaffa'' (lower ''Elena AFFA Banner'')
      \<and> contains ''banner'' (lower ''Elena AFFA Banner'')"
    by (simp add: lower_def)
  have c: "ELENA_AFFA \<in> set (get_agent_groups ''Elena AFFA Banner'')"
    using b get_agent_groups_elena_banner [of "''Elena AFFA Banner''"] by blast
  show ?thesis
    using a b c get_agent_groups_elena_banner [of "''Elena Banner''"]
      get_agent_groups_elena_banner [of "''Elena AFFA Banner''"]
    by blast
qed

text \<open>
  C7: the classifier is a total function of the name: it has no failing branch, its
  result is never the empty list, the empty name gives OTHER alone, and so does every
  name in which none of "elena", "maria", its accented spelling, "coach" and "artesan"
  occurs. Occurrence is tested on the lowered name, as the classifier does.
\<close>

theorem get_agent_groups_total:
  "get_agent_groups n \<noteq> []
   \<and> get_agent_groups [] = [OTHER]
   \<and> (\<not> contains ''elena'' (lower n) \<and> \<not> contains ''maria'' (lower n)
        \<and> \<not> contains (''mar'' @ [CHR 0xED] @ ''a'') (lower n)
        \<and> \<not> contains ''coach'' (lower n) \<and> \<not> contains ''artesan'' (lower n)
      \<longrightarrow> get_agent_groups n = [OTHER])"
proof (intro conjI impI)
  show "get_agent_groups n \<noteq> []"
    by (simp add: get_agent_groups_def Let_def)
  show "get_agent_groups [] = [OTHER]"
    by (simp add: get_agent_groups_def lower_def)
next
  assume "\<not> contains ''elena'' (lower n) \<and> \<not> contains ''maria'' (lower n)
        \<and> \<not> contains (''mar'' @ [CHR 0xED] @ ''a'') (lower n)
        \<and> \<not> contains ''coach'' (lower n) \<and> \<not> contains ''artesan'' (lower n)"
  then show "get_agent_groups n = [OTHER]"
    by (simp add: get_agent_groups_def Let_def)
qed

theorem get_agent_groups_total_witness:
  "get_agent_groups ''Sales Bot 3'' = [OTHER] \<and> get_agent_groups ''Sales Bot 3'' \<noteq> []"
proof -
  have "\<not> contains ''elena'' (lower ''Sales Bot 3'') \<and> \<not> contains ''maria'' (lower ''Sales Bot 3'')
        \<and> \<not> contains (''mar'' @ [CHR 0xED] @ ''a'') (lower ''Sales Bot 3'')
        \<and> \<not> contains ''coach'' (lower ''Sales Bot 3'')
        \<and> \<not> contains ''artesan'' (lower ''Sales Bot 3'')"
    by (simp add: lower_def)
  then show ?thesis
    using get_agent_groups_total [of "''Sales Bot 3''"] by blast
qed

section \<open>The agent catalog and the conversation aggregator\<close>

lemma AgentGroup_UNIV: "(UNIV :: AgentGroup set) = set AgentGroup_members"
  unfolding AgentGroup_members_def by (auto intro: AgentGroup.exhaust)

lemma inj_AgentGroup_value: "inj AgentGroup_value"
proof (rule injI)
  fix x y assume "AgentGroup_value x = AgentGroup_value y"
  then show "x = y" by (cases x; cases y) simp_all
qed

lemma dom_generate_dictionary_keys: "dom generate_dictionary_keys = range AgentGroup_value"
  unfolding AgentGroup_UNIV
  by (auto simp: generate_dictionary_keys_def AgentGroup_members_def)

lemma generate_dictionary_keys_lookup: "generate_dictionary_keys (AgentGroup_value g) = Some []"
  by (cases g) (simp_all add: generate_dictionary_keys_def AgentGroup_members_def)

lemma distinct_get_agent_groups: "distinct (get_agent_groups n)"
  by (simp add: get_agent_groups_def Let_def)

lemma append_at_dom: "append_at d k x = Inr d' \<Longrightarrow> dom d' = dom d"
  by (auto simp: append_at_def split: option.splits if_splits)

lemma append_to_groups_dom: "append_to_groups d x gs = Inr d' \<Longrightarrow> dom d' = dom d"
proof (induction gs arbitrary: d)
  case Nil
  then show ?case by simp
next
  case (Cons g gs)
  from Cons.prems obtain d1 where a: "append_at d (AgentGroup_value g) x = Inr d1"
    and b: "append_to_groups d1 x gs = Inr d'"
    by (auto split: sum.splits)
  have "dom d' = dom d1" using Cons.IH [OF b] .
  also have "dom d1 = dom d" using append_at_dom [OF a] .
  finally show ?case .
qed

lemma append_to_groups_total:
  "range AgentGroup_value \<subseteq> dom d \<Longrightarrow> \<exists>d'. append_to_groups d x gs = Inr d'"
proof (induction gs arbitrary: d)
  case Nil
  then show ?case by simp
next
  case (Cons g gs)
  from Cons.prems obtain xs where xs: "d (AgentGroup_value g) = Some xs" by blast
  then have step: "append_at d (AgentGroup_value g) x = Inr (d(AgentGroup_value g \<mapsto> xs @ [x]))"
    by (simp add: append_at_def)
  have "range AgentGroup_value \<subseteq> dom (d(AgentGroup_value g \<mapsto> xs @ [x]))"
    using Cons.prems by auto
  from Cons.IH [OF this] obtain d'
    where "append_to_groups (d(AgentGroup_value g \<mapsto> xs @ [x])) x gs = Inr d'" by blast
  then have "append_to_groups d x (g # gs) = Inr d'"
    by (simp only: append_to_groups.simps step sum.case)
  then show ?case by blast
qed

lemma append_to_groups_lookup:
  "distinct gs \<Longrightarrow> append_to_groups d x gs = Inr d' \<Longrightarrow>
   d' (AgentGroup_value g) =
     (if g \<in> set gs then map_option (\<lambda>xs. xs @ [x]) (d (AgentGroup_value g))
      else d (AgentGroup_value g))"
proof (induction gs arbitrary: d)
  case Nil
  then show ?case by simp
next
  case (Cons h gs)
  from Cons.prems(2) obtain xs where xs: "d (AgentGroup_value h) = Some xs"
    and rest: "append_to_groups (d(AgentGroup_value h \<mapsto> xs @ [x])) x gs = Inr d'"
    by (auto simp: append_at_def split: option.splits sum.splits)
  have dist: "distinct gs" and notin: "h \<notin> set gs" using Cons.prems(1) by auto
  have neq: "g \<noteq> h \<Longrightarrow> AgentGroup_value g \<noteq> AgentGroup_value h"
    using inj_AgentGroup_value by (auto dest: injD)
  show ?case
    using Cons.IH [OF dist rest] xs notin neq by (cases "g = h") auto
qed

subsection \<open>One conversation\<close>

lemma build_conversation_skip:
  "accepted_agent_ids (fst s) \<noteq> [] \<Longrightarrow> s_agent_id c \<notin> set (accepted_agent_ids (fst s))
   \<Longrightarrow> build_conversation f s c = Inr s"
  by (simp add: build_conversation_def)

lemma build_conversation_index:
  assumes acc: "accepted_agent_ids (fst s) = [] \<or> s_agent_id c \<in> set (accepted_agent_ids (fst s))"
    and ok: "build_conversation f s c = Inr t"
  shows "\<exists>info d'.
     fst t = (fst s)
       \<lparr>conversations := (conversations (fst s))(s_conversation_id c \<mapsto> info),
        conversation_ids := conversation_ids (fst s) @ [s_conversation_id c],
        conversation_ids_per_agent_id :=
          (conversation_ids_per_agent_id (fst s))(s_agent_id c \<mapsto> s_conversation_id c)\<rparr>
     \<and> snd t = (snd s)\<lparr>conversation_ids_per_agent_group := Some d'\<rparr>
     \<and> append_to_groups (per_agent_group (snd s)) (s_conversation_id c)
          (get_agent_groups (s_agent_name c)) = Inr d'
     \<and> call_duration_secs info = s_call_duration_secs c
     \<and> unix_to_time f (s_call_duration_secs c) = Inr (call_duration_timestamp info)"
  using acc ok
  by (auto simp: build_conversation_def Let_def split: sum.splits if_splits)

subsection \<open>A page\<close>

lemma build_page_append:
  "build_page f s (xs @ ys) =
     (case build_page f s xs of Inl e \<Rightarrow> Inl e | Inr s' \<Rightarrow> build_page f s' ys)"
  by (induction xs arbitrary: s) (auto split: sum.splits)

lemma build_conversation_parameters:
  "build_conversation f ((fst s)\<lparr>parameters := p\<rparr>, snd s) c =
     (case build_conversation f s c of
        Inl e \<Rightarrow> Inl e
      | Inr t \<Rightarrow> Inr ((fst t)\<lparr>parameters := p\<rparr>, snd t))"
  by (simp add: build_conversation_def Let_def split: sum.splits)

lemma build_page_parameters:
  "build_page f ((fst s)\<lparr>parameters := p\<rparr>, snd s) cs =
     (case build_page f s cs of
        Inl e \<Rightarrow> Inl e
      | Inr t \<Rightarrow> Inr ((fst t)\<lparr>parameters := p\<rparr>, snd t))"
proof (induction cs arbitrary: s)
  case Nil
  then show ?case by simp
next
  case (Cons c cs)
  show ?case
  proof (cases "build_conversation f s c")
    case (Inl e)
    then show ?thesis by (simp add: build_conversation_parameters)
  next
    case (Inr t)
    then show ?thesis
      using Cons.IH [of t] by (simp add: build_conversation_parameters)
  qed
qed

lemma build_conversation_keeps:
  "build_conversation f s c = Inr t \<Longrightarrow>
     parameters (fst t) = parameters (fst s)
     \<and> accepted_agent_ids (fst t) = accepted_agent_ids (fst s)
     \<and> agent_connection (snd t) = agent_connection (snd s)"
  by (auto simp: build_conversation_def Let_def split: sum.splits if_splits)

lemma build_page_keeps:
  "build_page f s cs = Inr t \<Longrightarrow>
     parameters (fst t) = parameters (fst s)
     \<and> accepted_agent_ids (fst t) = accepted_agent_ids (fst s)
     \<and> agent_connection (snd t) = agent_connection (snd s)"
proof (induction cs arbitrary: s)
  case Nil
  then show ?case by simp
next
  case (Cons c cs)
  from Cons.prems obtain s1 where a: "build_conversation f s c = Inr s1"
    and b: "build_page f s1 cs = Inr t"
    by (auto split: sum.splits)
  show ?case using Cons.IH [OF b] build_conversation_keeps [OF a] by simp
qed

subsection \<open>The pages of a build\<close>

lemma build_loop_listed:
  assumes "build_loop f list has_more next_cursor s = Some (Inr s')"
  shows "\<exists>cs t. listed_conversations list has_more next_cursor (parameters (fst s)) = Some (Inr cs)
           \<and> build_page f s cs = Inr t
           \<and> s' = ((fst t)\<lparr>parameters := parameters (fst s')\<rparr>, snd t)"
proof -
  have "\<forall>s'. y = Inr s' \<longrightarrow>
      (\<exists>cs t. listed_conversations list has_more next_cursor (parameters (fst s)) = Some (Inr cs)
           \<and> build_page f s cs = Inr t
           \<and> s' = ((fst t)\<lparr>parameters := parameters (fst s')\<rparr>, snd t))"
    if run: "build_loop f list has_more next_cursor s = Some y" for y
  proof (induction f list has_more next_cursor s y rule: build_loop.raw_induct)
    case (1 bl f list has_more next_cursor s y)
    show ?case
    proof (intro allI impI)
      fix s' assume y: "y = Inr s'"
      show "\<exists>cs t. listed_conversations list has_more next_cursor (parameters (fst s)) = Some (Inr cs)
           \<and> build_page f s cs = Inr t
           \<and> s' = ((fst t)\<lparr>parameters := parameters (fst s')\<rparr>, snd t)"
      proof (cases has_more)
        case False
        then have "s' = s" using 1(2) y by simp
        moreover have "listed_conversations list has_more next_cursor (parameters (fst s)) = Some (Inr [])"
          using False by (simp add: listed_conversations.simps)
        moreover have "build_page f s [] = Inr s" by simp
        moreover have "s = ((fst s)\<lparr>parameters := parameters (fst s)\<rparr>, snd s)" by simp
        ultimately show ?thesis by metis
      next
        case True
        define p where "p = set_cursor next_cursor (parameters (fst s))"
        define cls where "cls = (fst s)\<lparr>parameters := p\<rparr>"
        from 1(2) True y obtain response s2 where
          resp: "list p = Inr response"
          and page: "build_page f (cls, snd s) (r_conversations response) = Inr s2"
          and rec: "bl f list (r_has_more response) (r_next_cursor response) s2 = Some (Inr s')"
          by (auto simp: Let_def p_def cls_def split: sum.splits)
        from 1(1) [OF rec] obtain cs t where
          l: "listed_conversations list (r_has_more response) (r_next_cursor response) (parameters (fst s2)) = Some (Inr cs)"
          and b: "build_page f s2 cs = Inr t"
          and e: "s' = ((fst t)\<lparr>parameters := parameters (fst s')\<rparr>, snd t)"
          by blast
        have ps2: "parameters (fst s2) = p"
          using build_page_keeps [OF page] by (simp add: cls_def)
        have listed: "listed_conversations list has_more next_cursor (parameters (fst s))
            = Some (Inr (r_conversations response @ cs))"
          using True resp l ps2
          by (subst listed_conversations.simps) (simp add: Let_def p_def [symmetric])
        from page obtain u where
          u: "build_page f s (r_conversations response) = Inr u"
          and s2: "s2 = ((fst u)\<lparr>parameters := p\<rparr>, snd u)"
          unfolding cls_def by (auto simp: build_page_parameters split: sum.splits)
        from b obtain v where
          v: "build_page f u cs = Inr v"
          and t: "t = ((fst v)\<lparr>parameters := p\<rparr>, snd v)"
          unfolding s2 by (auto simp: build_page_parameters split: sum.splits)
        have "build_page f s (r_conversations response @ cs) = Inr v"
          using u v by (simp add: build_page_append)
        moreover have "s' = ((fst v)\<lparr>parameters := parameters (fst s')\<rparr>, snd v)"
          using e t by simp
        ultimately show ?thesis using listed by blast
      qed
    qed
  qed (fact run)
  then show ?thesis using assms by blast
qed

lemma build_page_conversation_ids:
  assumes "accepted_agent_ids (fst s) = A" and "build_page f s cs = Inr t"
  shows "conversation_ids (fst t) =
     conversation_ids (fst s)
     @ map s_conversation_id (filter (\<lambda>c. A = [] \<or> s_agent_id c \<in> set A) cs)"
  using assms
proof (induction cs arbitrary: s)
  case Nil
  then show ?case by simp
next
  case (Cons c cs)
  from Cons.prems obtain s1 where a: "build_conversation f s c = Inr s1"
    and b: "build_page f s1 cs = Inr t"
    by (auto split: sum.splits)
  have A1: "accepted_agent_ids (fst s1) = A"
    using build_conversation_keeps [OF a] Cons.prems(1) by simp
  note IH = Cons.IH [OF A1 b]
  show ?case
  proof (cases "A = [] \<or> s_agent_id c \<in> set A")
    case True
    then have "conversation_ids (fst s1) = conversation_ids (fst s) @ [s_conversation_id c]"
      using build_conversation_index [OF _ a] Cons.prems(1) by auto
    then show ?thesis using IH True by simp
  next
    case False
    then have "s1 = s"
      using build_conversation_skip [of s c f] a Cons.prems(1) by simp
    then show ?thesis using IH False by simp
  qed
qed

lemma build_page_conversations_dom:
  assumes "accepted_agent_ids (fst s) = A" and "build_page f s cs = Inr t"
  shows "dom (conversations (fst t)) =
     dom (conversations (fst s))
     \<union> s_conversation_id ` {c \<in> set cs. A = [] \<or> s_agent_id c \<in> set A}"
  using assms
proof (induction cs arbitrary: s)
  case Nil
  then show ?case by simp
next
  case (Cons c cs)
  from Cons.prems obtain s1 where a: "build_conversation f s c = Inr s1"
    and b: "build_page f s1 cs = Inr t"
    by (auto split: sum.splits)
  have A1: "accepted_agent_ids (fst s1) = A"
    using build_conversation_keeps [OF a] Cons.prems(1) by simp
  note IH = Cons.IH [OF A1 b]
  show ?case
  proof (cases "A = [] \<or> s_agent_id c \<in> set A")
    case True
    then have "dom (conversations (fst s1)) = insert (s_conversation_id c) (dom (conversations (fst s)))"
      using build_conversation_index [OF _ a] Cons.prems(1) by auto
    then show ?thesis using IH True by auto
  next
    case False
    then have "s1 = s"
      using build_conversation_skip [of s c f] a Cons.prems(1) by simp
    then show ?thesis using IH False by auto
  qed
qed

lemma build_page_per_agent:
  assumes "accepted_agent_ids (fst s) = A" and "build_page f s cs = Inr t"
  shows "conversation_ids_per_agent_id (fst t) a =
     (case filter (\<lambda>c. s_agent_id c = a \<and> (A = [] \<or> s_agent_id c \<in> set A)) cs of
        [] \<Rightarrow> conversation_ids_per_agent_id (fst s) a
      | x # xs \<Rightarrow> Some (s_conversation_id (last (x # xs))))"
  using assms
proof (induction cs arbitrary: s)
  case Nil
  then show ?case by simp
next
  case (Cons c cs)
  from Cons.prems obtain s1 where a: "build_conversation f s c = Inr s1"
    and b: "build_page f s1 cs = Inr t"
    by (auto split: sum.splits)
  have A1: "accepted_agent_ids (fst s1) = A"
    using build_conversation_keeps [OF a] Cons.prems(1) by simp
  note IH = Cons.IH [OF A1 b]
  show ?case
  proof (cases "A = [] \<or> s_agent_id c \<in> set A")
    case True
    then have "conversation_ids_per_agent_id (fst s1) =
        (conversation_ids_per_agent_id (fst s))(s_agent_id c \<mapsto> s_conversation_id c)"
      using build_conversation_index [OF _ a] Cons.prems(1) by auto
    then show ?thesis using IH True by (auto split: list.splits)
  next
    case False
    then have "s1 = s"
      using build_conversation_skip [of s c f] a Cons.prems(1) by simp
    then show ?thesis using IH False by (auto split: list.splits)
  qed
qed

lemma build_page_per_agent_group:
  assumes "accepted_agent_ids (fst s) = A" and "build_page f s cs = Inr t"
  shows "per_agent_group (snd t) (AgentGroup_value g) =
     map_option
       (\<lambda>ids. ids @ map s_conversation_id
          (filter (\<lambda>c. (A = [] \<or> s_agent_id c \<in> set A)
                      \<and> g \<in> set (get_agent_groups (s_agent_name c))) cs))
       (per_agent_group (snd s) (AgentGroup_value g))"
  using assms
proof (induction cs arbitrary: s)
  case Nil
  then show ?case by (simp add: option.map_ident)
next
  case (Cons c cs)
  from Cons.prems obtain s1 where a: "build_conversation f s c = Inr s1"
    and b: "build_page f s1 cs = Inr t"
    by (auto split: sum.splits)
  have A1: "accepted_agent_ids (fst s1) = A"
    using build_conversation_keeps [OF a] Cons.prems(1) by simp
  note IH = Cons.IH [OF A1 b]
  show ?case
  proof (cases "A = [] \<or> s_agent_id c \<in> set A")
    case True
    then obtain d' where
      d': "append_to_groups (per_agent_group (snd s)) (s_conversation_id c)
             (get_agent_groups (s_agent_name c)) = Inr d'"
      and s1: "snd s1 = (snd s)\<lparr>conversation_ids_per_agent_group := Some d'\<rparr>"
      using build_conversation_index [OF _ a] Cons.prems(1) by auto
    have "per_agent_group (snd s1) (AgentGroup_value g) =
        (if g \<in> set (get_agent_groups (s_agent_name c))
         then map_option (\<lambda>xs. xs @ [s_conversation_id c]) (per_agent_group (snd s) (AgentGroup_value g))
         else per_agent_group (snd s) (AgentGroup_value g))"
      using append_to_groups_lookup [OF distinct_get_agent_groups d', of g] s1
      by (simp add: per_agent_group_def)
    then show ?thesis using IH True by (simp add: option.map_comp comp_def)
  next
    case False
    then have "s1 = s"
      using build_conversation_skip [of s c f] a Cons.prems(1) by simp
    then show ?thesis using IH False by simp
  qed
qed


subsection \<open>The agent catalog\<close>

lemma AgentConnection_init_agents_groups:
  assumes "AgentConnection_init_agents client (cls, self) as = Inr (cls', self')"
  shows "agent_groups_ids self' (AgentGroup_value g) =
     map_option
       (\<lambda>ids. ids @ map a_agent_id (filter (\<lambda>a. g \<in> set (get_agent_groups (a_name a))) as))
       (agent_groups_ids self (AgentGroup_value g))
     \<and> agents_ids cls' = agents_ids cls @ map a_agent_id as"
  using assms
proof (induction as arbitrary: cls self)
  case Nil
  then show ?case by (simp add: option.map_ident)
next
  case (Cons a as)
  from Cons.prems obtain info d where
    get: "fetch_agent client (a_agent_id a) = Inr info"
    and d: "append_to_groups (agent_groups_ids self) (a_agent_id a) (get_agent_groups (a_name a)) = Inr d"
    and rest: "AgentConnection_init_agents client
        (cls\<lparr>agents := (agents cls)(a_agent_id a \<mapsto> info), agents_ids := agents_ids cls @ [a_agent_id a]\<rparr>,
         self\<lparr>agent_groups_ids := d\<rparr>) as = Inr (cls', self')"
    by (auto simp: Let_def split: sum.splits)
  have step: "d (AgentGroup_value g) =
      (if g \<in> set (get_agent_groups (a_name a))
       then map_option (\<lambda>xs. xs @ [a_agent_id a]) (agent_groups_ids self (AgentGroup_value g))
       else agent_groups_ids self (AgentGroup_value g))"
    using append_to_groups_lookup [OF distinct_get_agent_groups d, of g] .
  show ?case
    using Cons.IH [OF rest] step by (simp add: option.map_comp comp_def)
qed

lemma AgentConnection_init_groups:
  assumes "AgentConnection_init client cls = Inr (cls', self')"
  shows "\<exists>as. list_agents client = Inr as
     \<and> (\<forall>g. get_agent_group_ids self' g =
            Inr (map a_agent_id (filter (\<lambda>a. g \<in> set (get_agent_groups (a_name a))) as)))
     \<and> agents_ids cls' = agents_ids cls @ map a_agent_id as"
proof -
  from assms obtain as where l: "list_agents client = Inr as"
    and i: "AgentConnection_init_agents client
        (cls, \<lparr>agent_groups_ids = generate_dictionary_keys\<rparr>) as = Inr (cls', self')"
    by (auto simp: AgentConnection_init_def split: sum.splits)
  show ?thesis
    using l AgentConnection_init_agents_groups [OF i]
    by (simp add: get_agent_group_ids_def generate_dictionary_keys_lookup)
qed

lemma set_accepted_agent_groups_loop_ids:
  assumes "set_accepted_agent_groups_loop conn s gs = Inr s'"
  shows "\<exists>idss. map (get_agent_group_ids conn) gs = map Inr idss
     \<and> accepted_agent_ids (fst s') = accepted_agent_ids (fst s) @ concat idss
     \<and> snd s' = snd s"
  using assms
proof (induction gs arbitrary: s)
  case Nil
  then show ?case by simp
next
  case (Cons g gs)
  from Cons.prems obtain ids where
    ids: "get_agent_group_ids conn g = Inr ids"
    and rest: "set_accepted_agent_groups_loop conn (set_accepted_agent_ids s ids) gs = Inr s'"
    by (auto split: sum.splits)
  from Cons.IH [OF rest] obtain idss where
    m: "map (get_agent_group_ids conn) gs = map Inr idss"
    and a: "accepted_agent_ids (fst s') = accepted_agent_ids (fst (set_accepted_agent_ids s ids)) @ concat idss"
    and b: "snd s' = snd (set_accepted_agent_ids s ids)"
    by blast
  have "map (get_agent_group_ids conn) (g # gs) = map Inr (ids # idss)"
    using ids m by simp
  moreover have "accepted_agent_ids (fst s') = accepted_agent_ids (fst s) @ concat (ids # idss)"
    using a by (simp add: set_accepted_agent_ids_def)
  moreover have "snd s' = snd s" using b by (simp add: set_accepted_agent_ids_def)
  ultimately show ?case by blast
qed

subsection \<open>A whole build\<close>

lemma build_listed:
  assumes "build f list s = Some (Inr s')"
  shows "\<exists>cs t. listed_conversations list True None ((parameters (fst s))\<lparr>page_size := Some 100\<rparr>)
             = Some (Inr cs)
     \<and> build_page f (fst s, (snd s)\<lparr>conversation_ids_per_agent_group := Some generate_dictionary_keys\<rparr>) cs
         = Inr t
     \<and> s' = ((fst t)\<lparr>parameters := parameters (fst s')\<rparr>, snd t)"
proof -
  define self where "self = (snd s)\<lparr>conversation_ids_per_agent_group := Some generate_dictionary_keys\<rparr>"
  define p where "p = (parameters (fst s))\<lparr>page_size := Some 100\<rparr>"
  have "build_loop f list True None ((fst s)\<lparr>parameters := p\<rparr>, self) = Some (Inr s')"
    using assms by (simp add: build_def Let_def self_def p_def)
  from build_loop_listed [OF this] obtain cs t where
    l: "listed_conversations list True None p = Some (Inr cs)"
    and b: "build_page f ((fst s)\<lparr>parameters := p\<rparr>, self) cs = Inr t"
    and e: "s' = ((fst t)\<lparr>parameters := parameters (fst s')\<rparr>, snd t)"
    by auto
  from b obtain u where u: "build_page f (fst s, self) cs = Inr u"
    and t: "t = ((fst u)\<lparr>parameters := p\<rparr>, snd u)"
    using build_page_parameters [where f = f and s = "(fst s, self)" and p = p and cs = cs]
    by (auto split: sum.splits)
  have "s' = ((fst u)\<lparr>parameters := parameters (fst s')\<rparr>, snd u)"
    using e t by simp
  then show ?thesis using l u unfolding self_def p_def by blast
qed

subsection \<open>Evaluating a build on the example data\<close>

text \<open>The equations that compute a build on concrete data.\<close>

lemmas ev = build_def build_loop.simps build_conversation_def Let_def example_list_def
  set_cursor_def ConversationConnection_class_body_def ConversationConnection_init_def
  conv1_def conv2_def conv3_def conv4_def get_agent_groups_def get_agent_groups_as_strings_def
  lower_def unix_to_date_def unix_to_time_def fromtimestamp_def naive_seconds_def
  utc_localtime_def fixed_offset_localtime_def strftime_HMS_def
  format_02_def str_nat.simps digit_char_def per_agent_group_def append_at_def
  generate_dictionary_keys_def AgentGroup_members_def set_accepted_agent_ids_def

subsection \<open>The indexes after a build\<close>

lemma build_page_group_dom:
  assumes "conversation_ids_per_agent_group (snd s) = Some d" and "build_page f s cs = Inr t"
  shows "\<exists>d'. conversation_ids_per_agent_group (snd t) = Some d' \<and> dom d' = dom d"
  using assms
proof (induction cs arbitrary: s d)
  case Nil
  then show ?case by simp
next
  case (Cons c cs)
  from Cons.prems obtain s1 where a: "build_conversation f s c = Inr s1"
    and b: "build_page f s1 cs = Inr t"
    by (auto split: sum.splits)
  have "\<exists>d1. conversation_ids_per_agent_group (snd s1) = Some d1 \<and> dom d1 = dom d"
  proof (cases "accepted_agent_ids (fst s) = [] \<or> s_agent_id c \<in> set (accepted_agent_ids (fst s))")
    case True
    from build_conversation_index [OF True a] obtain d' where
      "snd s1 = (snd s)\<lparr>conversation_ids_per_agent_group := Some d'\<rparr>"
      "append_to_groups (per_agent_group (snd s)) (s_conversation_id c)
         (get_agent_groups (s_agent_name c)) = Inr d'"
      by auto
    then show ?thesis
      using append_to_groups_dom [of "per_agent_group (snd s)" _ _ d'] Cons.prems(1)
      by (simp add: per_agent_group_def)
  next
    case False
    then have "s1 = s" using build_conversation_skip [of s c f] a by simp
    then show ?thesis using Cons.prems(1) by simp
  qed
  then obtain d1 where d1: "conversation_ids_per_agent_group (snd s1) = Some d1" "dom d1 = dom d"
    by blast
  from Cons.IH [OF d1(1) b] d1(2) show ?case by simp
qed

lemma AgentConnection_init_agents_dom:
  assumes "AgentConnection_init_agents client (cls, self) as = Inr (cls', self')"
  shows "dom (agent_groups_ids self') = dom (agent_groups_ids self)"
  using assms
proof (induction as arbitrary: cls self)
  case Nil
  then show ?case by simp
next
  case (Cons a as)
  from Cons.prems obtain info d where
    d: "append_to_groups (agent_groups_ids self) (a_agent_id a) (get_agent_groups (a_name a)) = Inr d"
    and rest: "AgentConnection_init_agents client
        (cls\<lparr>agents := (agents cls)(a_agent_id a \<mapsto> info), agents_ids := agents_ids cls @ [a_agent_id a]\<rparr>,
         self\<lparr>agent_groups_ids := d\<rparr>) as = Inr (cls', self')"
    by (auto simp: Let_def split: sum.splits)
  show ?case using Cons.IH [OF rest] append_to_groups_dom [OF d] by simp
qed

lemma card_AgentGroup_values: "card (range AgentGroup_value) = 8"
proof -
  have "card (range AgentGroup_value) = card (UNIV :: AgentGroup set)"
    using inj_AgentGroup_value by (rule card_image)
  also have "\<dots> = card (set AgentGroup_members)" by (simp add: AgentGroup_UNIV)
  also have "\<dots> = 8" by (simp add: AgentGroup_members_def)
  finally show ?thesis .
qed

text \<open>
  C3: when \<open>build\<close> returns, the accessor \<open>get_conversation_ids_from_agent\<close> gives, for
  an agent with at least one indexed conversation among those listed to this build, the
  id of the last of them and nothing else: a single id, each insertion overwriting the one
  before. For an agent with none it gives what it gave before the build.
\<close>

theorem build_per_agent_last:
  assumes "build f list s = Some (Inr s')"
  shows "\<exists>cs. listed_conversations list True None ((parameters (fst s))\<lparr>page_size := Some 100\<rparr>)
             = Some (Inr cs)
     \<and> (\<forall>a. get_conversation_ids_from_agent s' a =
          (case filter (\<lambda>c. s_agent_id c = a
                  \<and> (accepted_agent_ids (fst s) = [] \<or> s_agent_id c \<in> set (accepted_agent_ids (fst s)))) cs of
             [] \<Rightarrow> get_conversation_ids_from_agent s a
           | x # xs \<Rightarrow> Inr (s_conversation_id (last (x # xs)))))"
proof -
  from build_listed [OF assms] obtain cs t where
    l: "listed_conversations list True None ((parameters (fst s))\<lparr>page_size := Some 100\<rparr>) = Some (Inr cs)"
    and b: "build_page f (fst s, (snd s)\<lparr>conversation_ids_per_agent_group := Some generate_dictionary_keys\<rparr>) cs = Inr t"
    and e: "s' = ((fst t)\<lparr>parameters := parameters (fst s')\<rparr>, snd t)"
    by blast
  have eq: "conversation_ids_per_agent_id (fst s') = conversation_ids_per_agent_id (fst t)"
    by (subst e) simp
  have "get_conversation_ids_from_agent s' a =
          (case filter (\<lambda>c. s_agent_id c = a
                  \<and> (accepted_agent_ids (fst s) = [] \<or> s_agent_id c \<in> set (accepted_agent_ids (fst s)))) cs of
             [] \<Rightarrow> get_conversation_ids_from_agent s a
           | x # xs \<Rightarrow> Inr (s_conversation_id (last (x # xs))))" for a
    using build_page_per_agent [OF _ b, of "accepted_agent_ids (fst s)" a]
    by (simp add: get_conversation_ids_from_agent_def eq split: list.splits)
  then show ?thesis using l by blast
qed

text \<open>
  C6: when \<open>build\<close> returns, the ids it appended to the list of all ids are, in order,
  those of the listed conversations whose agent id is among the accepted ids, or of all
  listed conversations when no id is accepted; the keys added to the dictionary of
  conversations are the same ids. \<open>set_accepted_agent_groups\<close> appends, after the ids
  already accepted, the catalog's ids of each given group in turn, and a catalog built by
  the call itself holds for each group the ids of the listed agents whose name is
  classified into it.
\<close>

theorem build_accepted_only:
  "(build f list s = Some (Inr s') \<longrightarrow>
      (\<exists>cs. listed_conversations list True None ((parameters (fst s))\<lparr>page_size := Some 100\<rparr>)
               = Some (Inr cs)
         \<and> get_all_conversation_ids s' =
             get_all_conversation_ids s
             @ map s_conversation_id
                 (filter (\<lambda>c. accepted_agent_ids (fst s) = []
                             \<or> s_agent_id c \<in> set (accepted_agent_ids (fst s))) cs)
         \<and> dom (get_all_conversations_info s') =
             dom (get_all_conversations_info s)
             \<union> s_conversation_id `
                 {c \<in> set cs. accepted_agent_ids (fst s) = []
                             \<or> s_agent_id c \<in> set (accepted_agent_ids (fst s))}))
   \<and> (set_accepted_agent_groups client (acls, cls, self) groups = Inr (acls', cls', self') \<longrightarrow>
      (\<exists>conn idss.
           agent_connection self' = Some conn
         \<and> map (get_agent_group_ids conn) groups = map Inr idss
         \<and> accepted_agent_ids cls' = accepted_agent_ids cls @ concat idss
         \<and> (agent_connection self = None \<longrightarrow>
             (\<exists>as. list_agents client = Inr as
                \<and> (\<forall>g. get_agent_group_ids conn g =
                     Inr (map a_agent_id
                            (filter (\<lambda>a. g \<in> set (get_agent_groups (a_name a))) as)))))))"
proof (intro conjI impI)
  assume run: "build f list s = Some (Inr s')"
  from build_listed [OF run] obtain cs t where
    l: "listed_conversations list True None ((parameters (fst s))\<lparr>page_size := Some 100\<rparr>) = Some (Inr cs)"
    and b: "build_page f (fst s, (snd s)\<lparr>conversation_ids_per_agent_group := Some generate_dictionary_keys\<rparr>) cs = Inr t"
    and e: "s' = ((fst t)\<lparr>parameters := parameters (fst s')\<rparr>, snd t)"
    by blast
  have ids: "conversation_ids (fst s') = conversation_ids (fst t)"
    and convs: "conversations (fst s') = conversations (fst t)"
    by (subst e, simp)+
  show "\<exists>cs. listed_conversations list True None ((parameters (fst s))\<lparr>page_size := Some 100\<rparr>)
               = Some (Inr cs)
         \<and> get_all_conversation_ids s' =
             get_all_conversation_ids s
             @ map s_conversation_id
                 (filter (\<lambda>c. accepted_agent_ids (fst s) = []
                             \<or> s_agent_id c \<in> set (accepted_agent_ids (fst s))) cs)
         \<and> dom (get_all_conversations_info s') =
             dom (get_all_conversations_info s)
             \<union> s_conversation_id `
                 {c \<in> set cs. accepted_agent_ids (fst s) = []
                             \<or> s_agent_id c \<in> set (accepted_agent_ids (fst s))}"
    using l build_page_conversation_ids [OF _ b, of "accepted_agent_ids (fst s)"]
      build_page_conversations_dom [OF _ b, of "accepted_agent_ids (fst s)"]
    by (simp add: get_all_conversation_ids_def get_all_conversations_info_def ids convs)
next
  assume run: "set_accepted_agent_groups client (acls, cls, self) groups = Inr (acls', cls', self')"
  then obtain conn where
    c: "(case agent_connection self of
           None \<Rightarrow> AgentConnection_init client acls
         | Some conn \<Rightarrow> Inr (acls, conn)) = Inr (acls', conn)"
    and lp: "set_accepted_agent_groups_loop conn
        (cls, self\<lparr>agent_connection := Some conn\<rparr>) groups = Inr (cls', self')"
    by (auto simp: set_accepted_agent_groups_def Let_def split: sum.splits)
  from set_accepted_agent_groups_loop_ids [OF lp] obtain idss where
    m: "map (get_agent_group_ids conn) groups = map Inr idss"
    and a: "accepted_agent_ids cls' = accepted_agent_ids cls @ concat idss"
    and s: "self' = self\<lparr>agent_connection := Some conn\<rparr>"
    by auto
  have fresh: "\<exists>as. list_agents client = Inr as
        \<and> (\<forall>g. get_agent_group_ids conn g =
              Inr (map a_agent_id (filter (\<lambda>a. g \<in> set (get_agent_groups (a_name a))) as)))"
    if "agent_connection self = None"
  proof -
    have "AgentConnection_init client acls = Inr (acls', conn)"
      using c that by simp
    from AgentConnection_init_groups [OF this] show ?thesis by blast
  qed
  show "\<exists>conn idss.
           agent_connection self' = Some conn
         \<and> map (get_agent_group_ids conn) groups = map Inr idss
         \<and> accepted_agent_ids cls' = accepted_agent_ids cls @ concat idss
         \<and> (agent_connection self = None \<longrightarrow>
             (\<exists>as. list_agents client = Inr as
                \<and> (\<forall>g. get_agent_group_ids conn g =
                     Inr (map a_agent_id
                            (filter (\<lambda>a. g \<in> set (get_agent_groups (a_name a))) as)))))"
    using m a s fresh by auto
qed

text \<open>
  C4: when \<open>build\<close> returns, the keys of the per-group index are exactly the eight group
  values, and the lookup of any group succeeds with the ids of the indexed conversations
  classified into that group, the empty list when there is none. After the construction
  of the agent catalog the keys of its per-group index are the same eight, and the lookup
  of any group succeeds.
\<close>

theorem group_index_complete:
  "(build f list s = Some (Inr s') \<longrightarrow>
      dom (per_agent_group (snd s')) = range AgentGroup_value
      \<and> (\<exists>cs. listed_conversations list True None ((parameters (fst s))\<lparr>page_size := Some 100\<rparr>)
               = Some (Inr cs)
           \<and> (\<forall>g. get_conversation_ids_from_agent_group s' g =
                Inr (map s_conversation_id
                       (filter (\<lambda>c. (accepted_agent_ids (fst s) = []
                                      \<or> s_agent_id c \<in> set (accepted_agent_ids (fst s)))
                                   \<and> g \<in> set (get_agent_groups (s_agent_name c))) cs)))))
   \<and> (AgentConnection_init client cls = Inr (cls', self') \<longrightarrow>
        dom (agent_groups_ids self') = range AgentGroup_value
        \<and> (\<forall>g. \<exists>ids. get_agent_group_ids self' g = Inr ids))
   \<and> card (range AgentGroup_value) = 8"
proof (intro conjI impI)
  assume run: "build f list s = Some (Inr s')"
  define self0 where "self0 = (snd s)\<lparr>conversation_ids_per_agent_group := Some generate_dictionary_keys\<rparr>"
  from build_listed [OF run] obtain cs t where
    l: "listed_conversations list True None ((parameters (fst s))\<lparr>page_size := Some 100\<rparr>) = Some (Inr cs)"
    and b: "build_page f (fst s, self0) cs = Inr t"
    and e: "s' = ((fst t)\<lparr>parameters := parameters (fst s')\<rparr>, snd t)"
    unfolding self0_def by blast
  have snd: "snd s' = snd t" by (subst e) simp
  from build_page_group_dom [OF _ b, of generate_dictionary_keys]
  obtain d' where "conversation_ids_per_agent_group (snd t) = Some d'"
    and "dom d' = dom generate_dictionary_keys"
    by (auto simp: self0_def)
  then show "dom (per_agent_group (snd s')) = range AgentGroup_value"
    by (simp add: per_agent_group_def snd dom_generate_dictionary_keys)
  have "get_conversation_ids_from_agent_group s' g =
          Inr (map s_conversation_id
                 (filter (\<lambda>c. (accepted_agent_ids (fst s) = []
                                \<or> s_agent_id c \<in> set (accepted_agent_ids (fst s)))
                             \<and> g \<in> set (get_agent_groups (s_agent_name c))) cs))" for g
    using build_page_per_agent_group [OF _ b, of "accepted_agent_ids (fst s)" g]
    by (simp add: get_conversation_ids_from_agent_group_def snd self0_def per_agent_group_def
        generate_dictionary_keys_lookup)
  then show "\<exists>cs. listed_conversations list True None ((parameters (fst s))\<lparr>page_size := Some 100\<rparr>)
               = Some (Inr cs)
           \<and> (\<forall>g. get_conversation_ids_from_agent_group s' g =
                Inr (map s_conversation_id
                       (filter (\<lambda>c. (accepted_agent_ids (fst s) = []
                                      \<or> s_agent_id c \<in> set (accepted_agent_ids (fst s)))
                                   \<and> g \<in> set (get_agent_groups (s_agent_name c))) cs)))"
    using l by blast
next
  assume init: "AgentConnection_init client cls = Inr (cls', self')"
  then obtain as where
    i: "AgentConnection_init_agents client
        (cls, \<lparr>agent_groups_ids = generate_dictionary_keys\<rparr>) as = Inr (cls', self')"
    by (auto simp: AgentConnection_init_def split: sum.splits)
  show "dom (agent_groups_ids self') = range AgentGroup_value"
    using AgentConnection_init_agents_dom [OF i] by (simp add: dom_generate_dictionary_keys)
  show "\<forall>g. \<exists>ids. get_agent_group_ids self' g = Inr ids"
    using AgentConnection_init_groups [OF init] by auto
next
  show "card (range AgentGroup_value) = 8" by (rule card_AgentGroup_values)
qed


lemma example_build_returns:
  "\<exists>s'. build utc_localtime example_list example_connection = Some (Inr s')"
  by (simp add: example_connection_def ev)

lemma example_listed:
  "listed_conversations example_list True None
     ((parameters (fst example_connection))\<lparr>page_size := Some 100\<rparr>)
     = Some (Inr [conv1, conv4, conv2, conv3])"
  by (simp add: listed_conversations.simps example_list_def set_cursor_def Let_def
      ConversationConnection_class_body_def example_connection_def set_accepted_agent_ids_def)

lemma example_accepted:
  "accepted_agent_ids (fst example_connection) = [''agent_1'', ''agent_2'']"
  by (simp add: example_connection_def set_accepted_agent_ids_def ConversationConnection_class_body_def)

theorem build_per_agent_last_witness:
  "\<exists>s'. build utc_localtime example_list example_connection = Some (Inr s')
     \<and> get_conversation_ids_from_agent s' ''agent_1'' = Inr ''conv_2''"
proof -
  from example_build_returns obtain s' where
    run: "build utc_localtime example_list example_connection = Some (Inr s')" by blast
  from build_per_agent_last [OF run] example_listed
  have "get_conversation_ids_from_agent s' ''agent_1'' =
      (case filter (\<lambda>c. s_agent_id c = ''agent_1''
              \<and> (accepted_agent_ids (fst example_connection) = []
                 \<or> s_agent_id c \<in> set (accepted_agent_ids (fst example_connection))))
            [conv1, conv4, conv2, conv3] of
         [] \<Rightarrow> get_conversation_ids_from_agent example_connection ''agent_1''
       | x # xs \<Rightarrow> Inr (s_conversation_id (last (x # xs))))"
    by auto
  then have "get_conversation_ids_from_agent s' ''agent_1'' = Inr ''conv_2''"
    by (simp add: example_accepted conv1_def conv2_def conv3_def conv4_def)
  then show ?thesis using run by blast
qed

lemma example_groups_return:
  "\<exists>acls cls self.
     set_accepted_agent_groups example_client
       (AgentConnection_class_body,
        set_accepted_agent_ids (ConversationConnection_class_body, ConversationConnection_init)
          [''agent_3''])
       [MARIA] = Inr (acls, cls, self)"
  by (simp add: set_accepted_agent_groups_def Let_def set_accepted_agent_ids_def
      ConversationConnection_init_def ConversationConnection_class_body_def
      AgentConnection_class_body_def AgentConnection_init_def example_client_def
      get_agent_groups_def lower_def append_at_def generate_dictionary_keys_def
      AgentGroup_members_def get_agent_group_ids_def)

theorem build_accepted_only_witness:
  "(\<exists>s'. build utc_localtime example_list example_connection = Some (Inr s')
      \<and> get_all_conversation_ids s' = [''conv_1'', ''conv_2'', ''conv_3''])
   \<and> (\<exists>acls cls self.
        set_accepted_agent_groups example_client
          (AgentConnection_class_body,
           set_accepted_agent_ids (ConversationConnection_class_body, ConversationConnection_init)
             [''agent_3''])
          [MARIA] = Inr (acls, cls, self)
        \<and> accepted_agent_ids cls = [''agent_3'', ''agent_2''])"
proof
  from example_build_returns obtain s' where
    run: "build utc_localtime example_list example_connection = Some (Inr s')" by blast
  from build_accepted_only [of utc_localtime example_list example_connection s'] run
    example_listed
  have "get_all_conversation_ids s' =
      get_all_conversation_ids example_connection
      @ map s_conversation_id
          (filter (\<lambda>c. accepted_agent_ids (fst example_connection) = []
                      \<or> s_agent_id c \<in> set (accepted_agent_ids (fst example_connection)))
             [conv1, conv4, conv2, conv3])"
    by auto
  then have "get_all_conversation_ids s' = [''conv_1'', ''conv_2'', ''conv_3'']"
    by (simp add: example_accepted conv1_def conv2_def conv3_def conv4_def
        get_all_conversation_ids_def example_connection_def set_accepted_agent_ids_def
        ConversationConnection_class_body_def)
  then show "\<exists>s'. build utc_localtime example_list example_connection = Some (Inr s')
      \<and> get_all_conversation_ids s' = [''conv_1'', ''conv_2'', ''conv_3'']"
    using run by blast
next
  from example_groups_return obtain acls cls self where
    run: "set_accepted_agent_groups example_client
       (AgentConnection_class_body,
        set_accepted_agent_ids (ConversationConnection_class_body, ConversationConnection_init)
          [''agent_3''])
       [MARIA] = Inr (acls, cls, self)"
    by blast
  have none: "agent_connection ConversationConnection_init = None"
    by (simp add: ConversationConnection_init_def)
  have start: "set_accepted_agent_ids (ConversationConnection_class_body, ConversationConnection_init)
          [''agent_3'']
      = (ConversationConnection_class_body\<lparr>accepted_agent_ids := [''agent_3'']\<rparr>,
         ConversationConnection_init)"
    by (simp add: set_accepted_agent_ids_def ConversationConnection_class_body_def)
  have "\<exists>conn idss.
           agent_connection self = Some conn
         \<and> map (get_agent_group_ids conn) [MARIA] = map Inr idss
         \<and> accepted_agent_ids cls =
             accepted_agent_ids (ConversationConnection_class_body\<lparr>accepted_agent_ids := [''agent_3'']\<rparr>)
             @ concat idss
         \<and> (agent_connection ConversationConnection_init = None \<longrightarrow>
             (\<exists>as. list_agents example_client = Inr as
                \<and> (\<forall>g. get_agent_group_ids conn g =
                     Inr (map a_agent_id
                            (filter (\<lambda>a. g \<in> set (get_agent_groups (a_name a))) as)))))"
    using build_accepted_only [where f = utc_localtime and list = example_list
        and s = example_connection and s' = example_connection
        and client = example_client and acls = AgentConnection_class_body
        and cls = "ConversationConnection_class_body\<lparr>accepted_agent_ids := [''agent_3'']\<rparr>"
        and self = ConversationConnection_init and groups = "[MARIA]"
        and acls' = acls and cls' = cls and self' = self]
      run [unfolded start]
    by blast
  then obtain conn idss where
    m: "map (get_agent_group_ids conn) [MARIA] = map Inr idss"
    and a0: "accepted_agent_ids cls =
             accepted_agent_ids (ConversationConnection_class_body\<lparr>accepted_agent_ids := [''agent_3'']\<rparr>)
             @ concat idss"
    and fresh: "agent_connection ConversationConnection_init = None \<longrightarrow>
             (\<exists>as. list_agents example_client = Inr as
                \<and> (\<forall>g. get_agent_group_ids conn g =
                     Inr (map a_agent_id
                            (filter (\<lambda>a. g \<in> set (get_agent_groups (a_name a))) as))))"
    by (elim exE conjE) (rule that, assumption+)
  from fresh none obtain as where
    l: "list_agents example_client = Inr as"
    and g: "\<forall>g. get_agent_group_ids conn g =
        Inr (map a_agent_id (filter (\<lambda>a. g \<in> set (get_agent_groups (a_name a))) as))"
    by blast
  have a: "accepted_agent_ids cls = [''agent_3''] @ concat idss"
    using a0 by simp
  have as: "as = [\<lparr>a_agent_id = ''agent_1'', a_name = ''Elena Banner''\<rparr>,
                  \<lparr>a_agent_id = ''agent_2'', a_name = ''MARIA ventas''\<rparr>,
                  \<lparr>a_agent_id = ''agent_3'', a_name = ''Coach''\<rparr>]"
    using l by (simp add: example_client_def)
  have "get_agent_group_ids conn MARIA = Inr [''agent_2'']"
    using g by (simp add: as get_agent_groups_def lower_def)
  then have "idss = [[''agent_2'']]" using m by auto
  then have "accepted_agent_ids cls = [''agent_3'', ''agent_2'']" using a by simp
  then show "\<exists>acls cls self.
        set_accepted_agent_groups example_client
          (AgentConnection_class_body,
           set_accepted_agent_ids (ConversationConnection_class_body, ConversationConnection_init)
             [''agent_3''])
          [MARIA] = Inr (acls, cls, self)
        \<and> accepted_agent_ids cls = [''agent_3'', ''agent_2'']"
    using run by blast
qed

lemma example_catalog_returns:
  "\<exists>cls' self'. AgentConnection_init example_client AgentConnection_class_body = Inr (cls', self')"
  by (simp add: AgentConnection_class_body_def AgentConnection_init_def example_client_def
      get_agent_groups_def lower_def append_at_def generate_dictionary_keys_def
      AgentGroup_members_def Let_def)

theorem group_index_complete_witness:
  "(\<exists>s'. build utc_localtime example_list example_connection = Some (Inr s')
      \<and> get_conversation_ids_from_agent_group s' ELENA = Inr [''conv_1'', ''conv_2'']
      \<and> get_conversation_ids_from_agent_group s' ARTESAN = Inr []
      \<and> get_conversation_ids_from_agent_group s' COACH = Inr [])
   \<and> (\<exists>cls' self'. AgentConnection_init example_client AgentConnection_class_body = Inr (cls', self')
      \<and> (\<forall>g. \<exists>ids. get_agent_group_ids self' g = Inr ids))"
proof
  from example_build_returns obtain s' where
    run: "build utc_localtime example_list example_connection = Some (Inr s')" by blast
  from group_index_complete [of utc_localtime example_list example_connection s'] run
    example_listed
  have all: "\<forall>g. get_conversation_ids_from_agent_group s' g =
      Inr (map s_conversation_id
             (filter (\<lambda>c. (accepted_agent_ids (fst example_connection) = []
                            \<or> s_agent_id c \<in> set (accepted_agent_ids (fst example_connection)))
                         \<and> g \<in> set (get_agent_groups (s_agent_name c)))
                [conv1, conv4, conv2, conv3]))"
    by auto
  have "get_conversation_ids_from_agent_group s' ELENA = Inr [''conv_1'', ''conv_2'']"
    "get_conversation_ids_from_agent_group s' ARTESAN = Inr []"
    "get_conversation_ids_from_agent_group s' COACH = Inr []"
    by (simp_all add: all example_accepted conv1_def conv2_def conv3_def conv4_def
        get_agent_groups_def lower_def)
  then show "\<exists>s'. build utc_localtime example_list example_connection = Some (Inr s')
      \<and> get_conversation_ids_from_agent_group s' ELENA = Inr [''conv_1'', ''conv_2'']
      \<and> get_conversation_ids_from_agent_group s' ARTESAN = Inr []
      \<and> get_conversation_ids_from_agent_group s' COACH = Inr []"
    using run by blast
next
  from example_catalog_returns obtain cls' self' where
    init: "AgentConnection_init example_client AgentConnection_class_body = Inr (cls', self')"
    by blast
  from group_index_complete [of _ _ _ _ example_client AgentConnection_class_body cls' self'] init
  have "\<forall>g. \<exists>ids. get_agent_group_ids self' g = Inr ids" by blast
  then show "\<exists>cls' self'. AgentConnection_init example_client AgentConnection_class_body = Inr (cls', self')
      \<and> (\<forall>g. \<exists>ids. get_agent_group_ids self' g = Inr ids)"
    using init by blast
qed



section \<open>The date conversions\<close>

lemma seconds_split:
  "(l div 86400) * 86400 + int (nat ((l mod 86400) div 3600)) * 3600
     + int (nat ((l mod 3600) div 60)) * 60 + int (nat (l mod 60)) = (l :: int)"
proof -
  have a: "l mod 3600 = (l mod 86400) mod 3600" by (simp add: mod_mod_cancel)
  have b: "l mod 60 = (l mod 3600) mod 60" by (simp add: mod_mod_cancel)
  have n1: "int (nat ((l mod 86400) div 3600)) = (l mod 86400) div 3600"
    by (simp add: pos_imp_zdiv_nonneg_iff)
  have n2: "int (nat ((l mod 3600) div 60)) = (l mod 3600) div 60"
    by (simp add: pos_imp_zdiv_nonneg_iff)
  have n3: "int (nat (l mod 60)) = l mod 60" by simp
  have "l = (l div 86400) * 86400 + l mod 86400" by simp
  also have "l mod 86400 = ((l mod 86400) div 3600) * 3600 + (l mod 86400) mod 3600" by simp
  also have "(l mod 86400) mod 3600 = l mod 3600" using a by simp
  also have "l mod 3600 = ((l mod 3600) div 60) * 60 + (l mod 3600) mod 60" by simp
  also have "(l mod 3600) mod 60 = l mod 60" using b by simp
  finally show ?thesis unfolding n1 n2 n3 by simp
qed

lemma naive_seconds_fixed_offset:
  "naive_seconds \<lparr>dt_date = l div 86400, hour = nat ((l mod 86400) div 3600),
      minute = nat ((l mod 3600) div 60), second = nat (l mod 60)\<rparr> = l"
  unfolding naive_seconds_def by (simp only: datetime.simps) (rule seconds_split)

lemma local_of_fixed_offset:
  "local_of (fixed_offset_localtime off) u =
     (if u + off < - 62135596800 \<or> 253402300799 < u + off then Inl ValueError
      else Inr (u + off))"
  by (simp add: local_of_def fixed_offset_localtime_def Let_def naive_seconds_fixed_offset)

lemma mktime_fixed_offset:
  "mktime (fixed_offset_localtime off) t =
     (if t + off < - 62135596800 \<or> 253402300799 < t + off
         \<or> t < - 62135596800 \<or> 253402300799 < t \<or> t - 86400 < - 62135596800
      then Inl ValueError else Inr (t - off))"
  by (simp add: mktime_def local_of_fixed_offset Let_def)

lemma fixed_offset_localtime_in_range:
  assumes "- 62135596800 \<le> ts + off" and "ts + off \<le> 253402300799"
  shows "\<exists>r. fixed_offset_localtime off ts = Inr r
     \<and> dt_date r = (ts + off) div 86400 \<and> naive_seconds r = ts + off"
proof -
  define l where "l = ts + off"
  define r where "r = \<lparr>dt_date = l div 86400, hour = nat ((l mod 86400) div 3600),
      minute = nat ((l mod 3600) div 60), second = nat (l mod 60)\<rparr>"
  have "\<not> (l < - 62135596800 \<or> 253402300799 < l)" using assms l_def by linarith
  then have "fixed_offset_localtime off ts = Inr r"
    unfolding fixed_offset_localtime_def Let_def l_def [symmetric] r_def by (simp only: if_False)
  moreover have "dt_date r = l div 86400" by (simp add: r_def)
  moreover have "naive_seconds r = l" unfolding r_def by (rule naive_seconds_fixed_offset)
  ultimately show ?thesis unfolding l_def by blast
qed

lemma fromtimestamp_fixed_offset:
  assumes "- 62135596800 \<le> ts + off - 86400" and "ts + off \<le> 253402300799"
  shows "\<exists>dt. fromtimestamp (fixed_offset_localtime off) ts = Inr dt
     \<and> dt_date dt = (ts + off) div 86400"
proof -
  have lo: "- 62135596800 \<le> ts + off" using assms(1) by linarith
  from fixed_offset_localtime_in_range [OF lo assms(2)]
  obtain r where r: "fixed_offset_localtime off ts = Inr r"
    and rd: "dt_date r = (ts + off) div 86400" and rs: "naive_seconds r = ts + off"
    by blast
  have lo': "- 62135596800 \<le> (ts - 86400) + off" using assms(1) by linarith
  have hi': "(ts - 86400) + off \<le> 253402300799" using assms(2) by linarith
  from fixed_offset_localtime_in_range [OF lo' hi']
  obtain q where q: "fixed_offset_localtime off (ts - 86400) = Inr q"
    and qs: "naive_seconds q = (ts - 86400) + off"
    by blast
  have "naive_seconds r - naive_seconds q - 86400 = 0" using rs qs by linarith
  then have "fromtimestamp (fixed_offset_localtime off) ts = Inr r"
    unfolding fromtimestamp_def by (simp add: r q Let_def)
  then show ?thesis using rd by blast
qed

lemma zone_localtime_in_range:
  assumes "- 62135596800 \<le> ts + z ts" and "ts + z ts \<le> 253402300799"
  shows "\<exists>r. zone_localtime z ts = Inr r
     \<and> dt_date r = (ts + z ts) div 86400 \<and> naive_seconds r = ts + z ts"
  unfolding zone_localtime_def using assms by (rule fixed_offset_localtime_in_range)

lemma local_of_zone_in_range:
  assumes "- 62135596800 \<le> u + z u" and "u + z u \<le> 253402300799"
  shows "local_of (zone_localtime z) u = Inr (u + z u)"
  using zone_localtime_in_range [where z = z and ts = u, OF assms]
  by (auto simp: local_of_def)

lemma local_of_zone_near:
  assumes bound: "\<forall>u. t - 259200 \<le> u \<and> u \<le> t + 86400 \<longrightarrow> \<bar>z u\<bar> \<le> 86400"
    and lo: "- 62135596800 + 345600 \<le> t" and hi: "t \<le> 253402300799 - 172800"
    and near: "t - 259200 \<le> u" "u \<le> t + 86400"
  shows "local_of (zone_localtime z) u = Inr (u + z u)"
proof -
  have "\<bar>z u\<bar> \<le> 86400" using bound near by blast
  then have "- 62135596800 \<le> u + z u" "u + z u \<le> 253402300799"
    using lo hi near by linarith+
  then show ?thesis by (rule local_of_zone_in_range)
qed

lemma mktime_zone_first_try:
  assumes bound: "\<forall>u. t - 259200 \<le> u \<and> u \<le> t + 86400 \<longrightarrow> \<bar>z u\<bar> \<le> 86400"
    and lo: "- 62135596800 + 345600 \<le> t" and hi: "t \<le> 253402300799 - 172800"
    and hit: "z (t - z t) = z t"
  shows "\<exists>ts. mktime (zone_localtime z) t = Inr ts \<and> ts + z ts = t \<and> \<bar>ts - t\<bar> \<le> 86400"
proof -
  define a where "a = z t"
  define u1 where "u1 = t - a"
  define b where "b = z (u1 - 86400)"
  define u2 where "u2 = t - b"
  have ba: "\<bar>a\<bar> \<le> 86400" using bound unfolding a_def by simp
  have bb: "\<bar>b\<bar> \<le> 86400"
  proof -
    have "t - 259200 \<le> u1 - 86400 \<and> u1 - 86400 \<le> t + 86400"
      using ba unfolding u1_def by linarith
    then show ?thesis using bound unfolding b_def by blast
  qed
  have zu1: "z u1 = a" using hit unfolding u1_def a_def .
  have l0: "local_of (zone_localtime z) t = Inr (t + a)"
    unfolding a_def by (rule local_of_zone_near [OF bound lo hi]) simp_all
  have l1: "local_of (zone_localtime z) u1 = Inr t"
  proof -
    have "local_of (zone_localtime z) u1 = Inr (u1 + z u1)"
      by (rule local_of_zone_near [OF bound lo hi]) (use ba in \<open>simp_all add: u1_def\<close>)
    then show ?thesis unfolding zu1 by (simp add: u1_def)
  qed
  have l2: "local_of (zone_localtime z) (u1 - 86400) = Inr (u1 - 86400 + b)"
    unfolding b_def
    by (rule local_of_zone_near [OF bound lo hi]) (use ba in \<open>simp_all add: u1_def\<close>)
  have l3: "local_of (zone_localtime z) u2 = Inr (u2 + z u2)"
    by (rule local_of_zone_near [OF bound lo hi]) (use bb in \<open>simp_all add: u2_def\<close>)
  have m: "mktime (zone_localtime z) t =
      (if a = b then Inr u1 else if u2 + z u2 = t then Inr u2 else Inr u1)"
    unfolding u1_def u2_def
    by (simp add: mktime_def l0 l1 [unfolded u1_def] l2 [unfolded u1_def]
        l3 [unfolded u2_def] Let_def)
  have first: "u1 + z u1 = t \<and> \<bar>u1 - t\<bar> \<le> 86400"
    unfolding zu1 using ba by (simp add: u1_def)
  show ?thesis
  proof (cases "a \<noteq> b \<and> u2 + z u2 = t")
    case True
    then have "mktime (zone_localtime z) t = Inr u2" using m by simp
    moreover have "\<bar>u2 - t\<bar> \<le> 86400" using bb by (simp add: u2_def)
    ultimately show ?thesis using True by blast
  next
    case False
    then have "mktime (zone_localtime z) t = Inr u1" using m by auto
    then show ?thesis using first by blast
  qed
qed

lemma mktime_zone_second_try:
  assumes bound: "\<forall>u. t - 259200 \<le> u \<and> u \<le> t + 86400 \<longrightarrow> \<bar>z u\<bar> \<le> 86400"
    and lo: "- 62135596800 + 345600 \<le> t" and hi: "t \<le> 253402300799 - 172800"
    and miss: "z (t - z t) \<noteq> z t"
  shows "mktime (zone_localtime z) t =
     (if z (t - z (t - z t)) = z (t - z t) then Inr (t - z (t - z t))
      else Inr (max (t - z t) (t - z (t - z t))))"
proof -
  define a where "a = z t"
  define u1 where "u1 = t - a"
  define b where "b = z u1"
  define u2 where "u2 = t - b"
  have ba: "\<bar>a\<bar> \<le> 86400" using bound unfolding a_def by simp
  have bb: "\<bar>b\<bar> \<le> 86400"
  proof -
    have "t - 259200 \<le> u1 \<and> u1 \<le> t + 86400" using ba unfolding u1_def by linarith
    then show ?thesis using bound unfolding b_def by blast
  qed
  have ne: "b \<noteq> a" using miss unfolding b_def u1_def a_def .
  have l0: "local_of (zone_localtime z) t = Inr (t + a)"
    unfolding a_def by (rule local_of_zone_near [OF bound lo hi]) simp_all
  have l1: "local_of (zone_localtime z) u1 = Inr (u1 + b)"
    unfolding b_def
    by (rule local_of_zone_near [OF bound lo hi]) (use ba in \<open>simp_all add: u1_def\<close>)
  have l3: "local_of (zone_localtime z) u2 = Inr (u2 + z u2)"
    by (rule local_of_zone_near [OF bound lo hi]) (use bb in \<open>simp_all add: u2_def\<close>)
  have t1: "u1 + b \<noteq> t" using ne unfolding u1_def by linarith
  have t2: "u2 + z u2 = t \<longleftrightarrow> z u2 = b" unfolding u2_def by linarith
  have "mktime (zone_localtime z) t = (if z u2 = b then Inr u2 else Inr (max u1 u2))"
    using t1 [unfolded u1_def] t2 [unfolded u2_def] unfolding u1_def u2_def
    by (simp add: mktime_def l0 l1 [unfolded u1_def] l3 [unfolded u2_def] Let_def)
  then show ?thesis unfolding u2_def b_def u1_def a_def .
qed

lemma mktime_one_transition:
  assumes window: "\<forall>u. t - 259200 \<le> u \<and> u \<le> t + 86400 \<longrightarrow> z u = (if u < T then p else q)"
    and bp: "\<bar>p\<bar> \<le> 86400" and bq: "\<bar>q\<bar> \<le> 86400"
    and lo: "- 62135596800 + 345600 \<le> t" and hi: "t \<le> 253402300799 - 172800"
  shows "\<exists>ts. mktime (zone_localtime z) t = Inr ts \<and> \<bar>ts - t\<bar> \<le> 86400
     \<and> ts + z ts = (if T + p \<le> t \<and> t < T + q then t + (q - p) else t)"
proof -
  have zw: "z u = (if u < T then p else q)" if "t - 259200 \<le> u" "u \<le> t + 86400" for u
    using window that by blast
  have bound: "\<forall>u. t - 259200 \<le> u \<and> u \<le> t + 86400 \<longrightarrow> \<bar>z u\<bar> \<le> 86400"
    using zw bp bq by simp
  define a where "a = z t"
  define u1 where "u1 = t - a"
  define b where "b = z u1"
  define u2 where "u2 = t - b"
  have za: "a = (if t < T then p else q)" unfolding a_def by (rule zw) simp_all
  have ba: "\<bar>a\<bar> \<le> 86400" using za bp bq by simp
  have zb: "b = (if u1 < T then p else q)"
    unfolding b_def by (rule zw) (use ba in \<open>simp_all add: u1_def\<close>)
  have bb: "\<bar>b\<bar> \<le> 86400" using zb bp bq by simp
  have zu2: "z u2 = (if u2 < T then p else q)"
    by (rule zw) (use bb in \<open>simp_all add: u2_def\<close>)
  show ?thesis
  proof (cases "b = a")
    case True
    then have "z (t - z t) = z t" unfolding b_def u1_def a_def .
    from mktime_zone_first_try [OF bound lo hi this] obtain ts where
      m: "mktime (zone_localtime z) t = Inr ts" and n: "\<bar>ts - t\<bar> \<le> 86400"
      and l: "ts + z ts = t"
      by blast
    have "\<not> (T + p \<le> t \<and> t < T + q)"
    proof (cases "t < T")
      case True
      then have "a = p" using za by simp
      then have "u1 = t - p" and "b = p" using \<open>b = a\<close> by (simp_all add: u1_def)
      then have "t - p < T \<or> q = p" using zb by (auto split: if_splits)
      then show ?thesis by linarith
    next
      case False
      then have "a = q" using za by simp
      then have "u1 = t - q" and "b = q" using \<open>b = a\<close> by (simp_all add: u1_def)
      then have "\<not> t - q < T \<or> p = q" using zb by (auto split: if_splits)
      then show ?thesis by linarith
    qed
    then show ?thesis using m n l by simp
  next
    case False
    then have miss: "z (t - z t) \<noteq> z t" unfolding b_def u1_def a_def .
    have m: "mktime (zone_localtime z) t =
        (if z u2 = b then Inr u2 else Inr (max u1 u2))"
      using mktime_zone_second_try [OF bound lo hi miss]
      unfolding u2_def b_def u1_def a_def .
    show ?thesis
    proof (cases "t < T")
      case True
      then have a: "a = p" using za by simp
      then have b: "b = q" and u1: "\<not> u1 < T" using zb False by (auto split: if_splits)
      have ne: "p \<noteq> q" using a b False by simp
      have left: "T + p \<le> t" using u1 a unfolding u1_def by linarith
      show ?thesis
      proof (cases "z u2 = b")
        case True
        then have m2: "mktime (zone_localtime z) t = Inr u2" using m by simp
        have n: "\<bar>u2 - t\<bar> \<le> 86400" using bb by (simp add: u2_def)
        have l: "u2 + z u2 = t" using True by (simp add: u2_def)
        have "\<not> u2 < T" using zu2 True b ne by (auto split: if_splits)
        then have "\<not> t < T + q" using b unfolding u2_def by linarith
        then show ?thesis using m2 n l by simp
      next
        case gap: False
        have u2: "u2 < T" using zu2 gap b by (auto split: if_splits)
        have right: "t < T + q" using u2 b unfolding u2_def by linarith
        have "max u1 u2 = u1" using u1 u2 by linarith
        then have m1: "mktime (zone_localtime z) t = Inr u1" using m gap by simp
        have n: "\<bar>u1 - t\<bar> \<le> 86400" using ba by (simp add: u1_def)
        have "z u1 = q" using b unfolding b_def .
        then have l: "u1 + z u1 = t + (q - p)" using a by (simp add: u1_def)
        show ?thesis using m1 n l left right by simp
      qed
    next
      case after: False
      then have a: "a = q" using za by simp
      then have b: "b = p" and u1: "u1 < T" using zb False by (auto split: if_splits)
      have ne: "p \<noteq> q" using a b False by simp
      have right: "t < T + q" using u1 a unfolding u1_def by linarith
      show ?thesis
      proof (cases "z u2 = b")
        case True
        then have m2: "mktime (zone_localtime z) t = Inr u2" using m by simp
        have n: "\<bar>u2 - t\<bar> \<le> 86400" using bb by (simp add: u2_def)
        have l: "u2 + z u2 = t" using True by (simp add: u2_def)
        have "u2 < T" using zu2 True b ne by (auto split: if_splits)
        then have "\<not> T + p \<le> t" using b unfolding u2_def by linarith
        then show ?thesis using m2 n l by simp
      next
        case gap: False
        have u2: "\<not> u2 < T" using zu2 gap b by (auto split: if_splits)
        have left: "T + p \<le> t" using u2 b unfolding u2_def by linarith
        have "max u1 u2 = u2" using u1 u2 by linarith
        then have m2: "mktime (zone_localtime z) t = Inr u2" using m gap by simp
        have n: "\<bar>u2 - t\<bar> \<le> 86400" using bb by (simp add: u2_def)
        have "z u2 = q" using zu2 u2 by simp
        then have l: "u2 + z u2 = t + (q - p)" using b by (simp add: u2_def)
        show ?thesis using m2 n l left right by simp
      qed
    qed
  qed
qed

lemma fromtimestamp_zone_near:
  assumes bound: "\<forall>u. t - 259200 \<le> u \<and> u \<le> t + 86400 \<longrightarrow> \<bar>z u\<bar> \<le> 86400"
    and lo: "- 62135596800 + 345600 \<le> t" and hi: "t \<le> 253402300799 - 172800"
    and near: "\<bar>ts - t\<bar> \<le> 86400"
  shows "\<exists>dt. fromtimestamp (zone_localtime z) ts = Inr dt
     \<and> dt_date dt = (ts + z ts) div 86400"
proof -
  have b0: "\<bar>z ts\<bar> \<le> 86400"
  proof -
    have "t - 259200 \<le> ts \<and> ts \<le> t + 86400" using near by linarith
    then show ?thesis using bound by blast
  qed
  have b1: "\<bar>z (ts - 86400)\<bar> \<le> 86400"
  proof -
    have "t - 259200 \<le> ts - 86400 \<and> ts - 86400 \<le> t + 86400" using near by linarith
    then show ?thesis using bound by blast
  qed
  obtain r where r: "zone_localtime z ts = Inr r"
    and rd: "dt_date r = (ts + z ts) div 86400" and rs: "naive_seconds r = ts + z ts"
  proof -
    have "- 62135596800 \<le> ts + z ts" "ts + z ts \<le> 253402300799"
      using b0 near lo hi by linarith+
    from zone_localtime_in_range [where z = z and ts = ts, OF this] that show ?thesis by blast
  qed
  obtain q where q: "zone_localtime z (ts - 86400) = Inr q"
    and qs: "naive_seconds q = ts - 86400 + z (ts - 86400)"
  proof -
    have "- 62135596800 \<le> (ts - 86400) + z (ts - 86400)"
      "(ts - 86400) + z (ts - 86400) \<le> 253402300799"
      using b1 near lo hi by linarith+
    from zone_localtime_in_range [where z = z and ts = "ts - 86400", OF this] that
    show ?thesis by blast
  qed
  define trans where "trans = naive_seconds r - naive_seconds q - 86400"
  have tr: "- 172800 \<le> trans" using rs qs b0 b1 unfolding trans_def by linarith
  have "fromtimestamp (zone_localtime z) ts = Inr r"
  proof (cases "trans < 0")
    case True
    have b2: "\<bar>z (ts + trans)\<bar> \<le> 86400"
    proof -
      have "t - 259200 \<le> ts + trans \<and> ts + trans \<le> t + 86400"
        using near tr True by linarith
      then show ?thesis using bound by blast
    qed
    obtain p where p: "zone_localtime z (ts + trans) = Inr p"
    proof -
      have "- 62135596800 \<le> (ts + trans) + z (ts + trans)"
        "(ts + trans) + z (ts + trans) \<le> 253402300799"
        using b2 tr True near lo hi by linarith+
      from zone_localtime_in_range [where z = z and ts = "ts + trans", OF this] that
      show ?thesis by blast
    qed
    show ?thesis
      unfolding fromtimestamp_def using True
      by (simp add: r q p Let_def trans_def [symmetric])
  next
    case False
    show ?thesis
      unfolding fromtimestamp_def using False
      by (simp add: r q Let_def trans_def [symmetric])
  qed
  then show ?thesis using rd by blast
qed

lemma date_round_trip_one_transition:
  assumes range: "- 719158 \<le> d \<and> d \<le> 2932894"
    and bp: "\<bar>p\<bar> \<le> 86400" and bq: "\<bar>q\<bar> \<le> 86400"
    and window: "\<forall>u. d * 86400 - 259200 \<le> u \<and> u \<le> d * 86400 + 86400
        \<longrightarrow> z u = (if u < T then p else q)"
  shows "date_round_trip (zone_localtime z) d =
     Inr (if T + p \<le> d * 86400 \<and> d * 86400 < T + q then d + (q - p) div 86400 else d)"
proof -
  have lo: "- 62135596800 + 345600 \<le> d * 86400" and hi: "d * 86400 \<le> 253402300799 - 172800"
    using range by linarith+
  have bound: "\<forall>u. d * 86400 - 259200 \<le> u \<and> u \<le> d * 86400 + 86400 \<longrightarrow> \<bar>z u\<bar> \<le> 86400"
    using window bp bq by simp
  from mktime_one_transition [OF window bp bq lo hi] obtain ts where
    m: "mktime (zone_localtime z) (d * 86400) = Inr ts"
    and n: "\<bar>ts - d * 86400\<bar> \<le> 86400"
    and l: "ts + z ts =
      (if T + p \<le> d * 86400 \<and> d * 86400 < T + q then d * 86400 + (q - p) else d * 86400)"
    by blast
  have day: "(ts + z ts) div 86400 =
      (if T + p \<le> d * 86400 \<and> d * 86400 < T + q then d + (q - p) div 86400 else d)"
    unfolding l by simp
  from fromtimestamp_zone_near [OF bound lo hi n] obtain dt where
    "fromtimestamp (zone_localtime z) ts = Inr dt" and "dt_date dt = (ts + z ts) div 86400"
    by blast
  then have "unix_to_date (zone_localtime z) ts = Inr ((ts + z ts) div 86400)"
    by (simp add: unix_to_date_def)
  then show ?thesis
    unfolding day using m by (simp add: date_round_trip_def date_to_unix_def)
qed

text \<open>
  C8, as the conversions allow it. Take a date \<open>d\<close> from 0001-01-05 to 9999-12-29 and a
  host whose offset from UTC, from three days before the UTC midnight of \<open>d\<close> to one day
  after it, changes at most once: it is \<open>p\<close> seconds before the instant \<open>T\<close> and \<open>q\<close>
  seconds from \<open>T\<close> on, each at most a day. Then the round trip returns a date. It is
  \<open>d\<close> itself, unless the clocks were set forward by a day or more and the local midnight
  of \<open>d\<close> is one of the local times they skipped, those from \<open>T + p\<close> to \<open>T + q\<close>;
  then it is the date \<open>(q - p) div 86400\<close> days after \<open>d\<close>. So the round trip of \<open>d\<close>
  is \<open>d\<close> whenever the transition sets the clocks back, or forward by less than a day,
  also when the local midnight of \<open>d\<close> itself is skipped. On a host whose zone keeps one
  offset, whenever \<open>date_to_unix\<close> returns a timestamp it is the local midnight of the
  date and \<open>unix_to_date\<close> gives the date back. On a host in UTC the round trip of every
  date from 0001-01-02 to 9999-12-31 is the date itself.
\<close>

theorem date_round_trip_across_one_transition:
  "(- 719158 \<le> d \<and> d \<le> 2932894 \<and> \<bar>p\<bar> \<le> 86400 \<and> \<bar>q\<bar> \<le> 86400
      \<and> (\<forall>u. d * 86400 - 259200 \<le> u \<and> u \<le> d * 86400 + 86400
            \<longrightarrow> zone u = (if u < T then p else q))
      \<longrightarrow> date_round_trip (zone_localtime zone) d =
            Inr (if T + p \<le> d * 86400 \<and> d * 86400 < T + q \<and> 86400 \<le> q - p
                 then d + (q - p) div 86400 else d))
   \<and> (date_to_unix (fixed_offset_localtime off) d = Inr ts
      \<longrightarrow> ts = d * 86400 - off \<and> unix_to_date (fixed_offset_localtime off) ts = Inr d)
   \<and> (- 719161 \<le> d \<and> d \<le> 2932896 \<longrightarrow> date_round_trip utc_localtime d = Inr d)"
proof (intro conjI impI)
  assume h: "- 719158 \<le> d \<and> d \<le> 2932894 \<and> \<bar>p\<bar> \<le> 86400 \<and> \<bar>q\<bar> \<le> 86400
      \<and> (\<forall>u. d * 86400 - 259200 \<le> u \<and> u \<le> d * 86400 + 86400
            \<longrightarrow> zone u = (if u < T then p else q))"
  then have range: "- 719158 \<le> d \<and> d \<le> 2932894"
    and bp: "\<bar>p\<bar> \<le> 86400" and bq: "\<bar>q\<bar> \<le> 86400"
    and window: "\<forall>u. d * 86400 - 259200 \<le> u \<and> u \<le> d * 86400 + 86400
        \<longrightarrow> zone u = (if u < T then p else q)"
    by blast+
  have short: "(q - p) div 86400 = 0" if "T + p \<le> d * 86400" "d * 86400 < T + q"
      "\<not> 86400 \<le> q - p"
  proof -
    have "0 \<le> q - p" "q - p < 86400" using that by linarith+
    then show ?thesis by simp
  qed
  show "date_round_trip (zone_localtime zone) d =
      Inr (if T + p \<le> d * 86400 \<and> d * 86400 < T + q \<and> 86400 \<le> q - p
           then d + (q - p) div 86400 else d)"
    unfolding date_round_trip_one_transition [OF range bp bq window]
    using short by auto
next
  assume run: "date_to_unix (fixed_offset_localtime off) d = Inr ts"
  then have ts: "ts = d * 86400 - off"
    and lo: "- 62135596800 \<le> d * 86400 - 86400" and hi: "d * 86400 \<le> 253402300799"
    by (auto simp: date_to_unix_def mktime_fixed_offset split: if_splits)
  show "ts = d * 86400 - off" by (rule ts)
  from fromtimestamp_fixed_offset [of ts off] ts lo hi
  obtain dt where "fromtimestamp (fixed_offset_localtime off) ts = Inr dt"
    and "dt_date dt = (d * 86400) div 86400"
    by auto
  then show "unix_to_date (fixed_offset_localtime off) ts = Inr d"
    by (simp add: unix_to_date_def)
next
  assume range: "- 719161 \<le> d \<and> d \<le> 2932896"
  then have forth: "date_to_unix utc_localtime d = Inr (d * 86400)"
    by (simp add: date_to_unix_def utc_localtime_def mktime_fixed_offset)
  from fromtimestamp_fixed_offset [of "d * 86400" 0] range
  obtain dt where "fromtimestamp (fixed_offset_localtime 0) (d * 86400) = Inr dt"
    and "dt_date dt = (d * 86400) div 86400"
    by auto
  then have "unix_to_date utc_localtime (d * 86400) = Inr d"
    by (simp add: unix_to_date_def utc_localtime_def)
  then show "date_round_trip utc_localtime d = Inr d"
    using forth by (simp add: date_round_trip_def)
qed

theorem date_round_trip_across_one_transition_witness:
  "date_round_trip (zone_localtime southern_summer_time_zone) 20366 = Inr 20366
   \<and> date_round_trip (zone_localtime midnight_gap_zone) 17839 = Inr 17839
   \<and> date_round_trip (zone_localtime summer_time_zone) 20387 = Inr 20387
   \<and> date_round_trip skipped_day_localtime 15339 = Inr 15339
   \<and> date_to_unix (fixed_offset_localtime 3600) 20378 = Inr 1760655600
   \<and> unix_to_date (fixed_offset_localtime 3600) 1760655600 = Inr 20378
   \<and> date_round_trip utc_localtime 20378 = Inr 20378"
proof -
  have s: "(- 719158 :: int) \<le> 20366 \<and> (20366 :: int) \<le> 2932894
      \<and> \<bar>36000 :: int\<bar> \<le> 86400 \<and> \<bar>39600 :: int\<bar> \<le> 86400
      \<and> (\<forall>u. 20366 * 86400 - 259200 \<le> u \<and> u \<le> 20366 * 86400 + 86400
            \<longrightarrow> southern_summer_time_zone u = (if u < 1759593600 then 36000 else 39600))"
    by (simp add: southern_summer_time_zone_def)
  have g: "(- 719158 :: int) \<le> 17839 \<and> (17839 :: int) \<le> 2932894
      \<and> \<bar>- 10800 :: int\<bar> \<le> 86400 \<and> \<bar>- 7200 :: int\<bar> \<le> 86400
      \<and> (\<forall>u. 17839 * 86400 - 259200 \<le> u \<and> u \<le> 17839 * 86400 + 86400
            \<longrightarrow> midnight_gap_zone u = (if u < 1541300400 then - 10800 else - 7200))"
    by (simp add: midnight_gap_zone_def)
  have z: "(- 719158 :: int) \<le> 20387 \<and> (20387 :: int) \<le> 2932894
      \<and> \<bar>7200 :: int\<bar> \<le> 86400 \<and> \<bar>3600 :: int\<bar> \<le> 86400
      \<and> (\<forall>u. 20387 * 86400 - 259200 \<le> u \<and> u \<le> 20387 * 86400 + 86400
            \<longrightarrow> summer_time_zone u = (if u < 1761440400 then 7200 else 3600))"
    by (simp add: summer_time_zone_def)
  have k: "(- 719158 :: int) \<le> 15339 \<and> (15339 :: int) \<le> 2932894
      \<and> \<bar>- 36000 :: int\<bar> \<le> 86400 \<and> \<bar>50400 :: int\<bar> \<le> 86400
      \<and> (\<forall>u. 15339 * 86400 - 259200 \<le> u \<and> u \<le> 15339 * 86400 + 86400
            \<longrightarrow> (\<lambda>ts. if ts < 1325239200 then - 36000 else 50400) u
                = (if u < 1325239200 then - 36000 else 50400))"
    by simp
  have a: "date_to_unix (fixed_offset_localtime 3600) 20378 = Inr 1760655600"
    by (simp add: date_to_unix_def mktime_fixed_offset)
  have b: "(- 719161 :: int) \<le> 20378 \<and> (20378 :: int) \<le> 2932896" by simp
  have r1: "date_round_trip (zone_localtime southern_summer_time_zone) 20366 = Inr 20366"
    using date_round_trip_across_one_transition
        [where d = 20366 and p = 36000 and q = 39600 and zone = southern_summer_time_zone
           and T = 1759593600, THEN conjunct1, THEN mp, OF s]
    by simp
  have r2: "date_round_trip (zone_localtime midnight_gap_zone) 17839 = Inr 17839"
    using date_round_trip_across_one_transition
        [where d = 17839 and p = "- 10800" and q = "- 7200" and zone = midnight_gap_zone
           and T = 1541300400, THEN conjunct1, THEN mp, OF g]
    by simp
  have r3: "date_round_trip (zone_localtime summer_time_zone) 20387 = Inr 20387"
    using date_round_trip_across_one_transition
        [where d = 20387 and p = 7200 and q = 3600 and zone = summer_time_zone
           and T = 1761440400, THEN conjunct1, THEN mp, OF z]
    by simp
  have r4: "date_round_trip skipped_day_localtime 15339 = Inr 15339"
    using date_round_trip_across_one_transition
        [where d = 15339 and p = "- 36000" and q = 50400
           and zone = "\<lambda>ts. if ts < 1325239200 then - 36000 else 50400"
           and T = 1325239200, THEN conjunct1, THEN mp, OF k]
    by (simp add: skipped_day_localtime_def)
  have r5: "unix_to_date (fixed_offset_localtime 3600) 1760655600 = Inr 20378"
    using a date_round_trip_across_one_transition
        [where d = 20378 and off = 3600 and ts = 1760655600]
    by blast
  have r6: "date_round_trip utc_localtime 20378 = Inr 20378"
    using b date_round_trip_across_one_transition [where d = 20378]
    by blast
  show ?thesis using r1 r2 r3 r4 a r5 r6 by blast
qed

text \<open>
  C8 does not hold for every date. On a host in UTC the first date of the calendar,
  0001-01-01, makes \<open>date_to_unix\<close> raise, because the conversion looks one day back
  and leaves the years of the datetime type. On a host whose zone skipped the local day
  2011-12-30 the round trip of that date returns 2011-12-31.
\<close>

theorem date_round_trip_counterexample:
  "date_round_trip utc_localtime (- 719162) = Inl ValueError
   \<and> date_to_unix skipped_day_localtime 15338 = Inr 1325239200
   \<and> date_round_trip skipped_day_localtime 15338 = Inr 15339"
  by (simp add: date_round_trip_def date_to_unix_def unix_to_date_def mktime_def local_of_def
      fromtimestamp_def naive_seconds_def utc_localtime_def skipped_day_localtime_def
      zone_localtime_def fixed_offset_localtime_def Let_def)

section \<open>The dynamic variables of a conversation\<close>

lemma system_key_is_not_contact:
  "startswith key ''system'' \<Longrightarrow>
   \<not> (key = ''email'' \<or> key = ''phone'' \<or> key = ''secret_user_id'' \<or> key = ''secret_object_id'')"
  by auto

lemma pop_present: "key \<in> fst ` set d \<Longrightarrow> pop key d = Inr (filter (\<lambda>kv. fst kv \<noteq> key) d)"
  by (simp add: pop_def)

lemma process_dynamic_variables_keys_filter:
  assumes "distinct keys" and "set keys \<subseteq> fst ` set dv"
  shows "process_dynamic_variables_keys keys dv =
     Inr (filter (\<lambda>kv. \<not> (fst kv \<in> set keys
                 \<and> (startswith (fst kv) ''system'' \<or> fst kv = ''email'' \<or> fst kv = ''phone''
                    \<or> fst kv = ''secret_user_id'' \<or> fst kv = ''secret_object_id''))) dv)"
  using assms
proof (induction keys arbitrary: dv)
  case Nil
  then show ?case by simp
next
  case (Cons key keys)
  define removed where "removed = (\<lambda>k. startswith k ''system'' \<or> k = ''email'' \<or> k = ''phone''
      \<or> k = ''secret_user_id'' \<or> k = ''secret_object_id'')"
  define dv2 where "dv2 = (if removed key then filter (\<lambda>kv. fst kv \<noteq> key) dv else dv)"
  have present: "key \<in> fst ` set dv" using Cons.prems(2) by simp
  have notin: "key \<notin> set keys" and dist: "distinct keys" using Cons.prems(1) by auto
  have step: "process_dynamic_variables_keys (key # keys) dv = process_dynamic_variables_keys keys dv2"
  proof (cases "startswith key ''system''")
    case True
    then have "\<not> (key = ''email'' \<or> key = ''phone'' \<or> key = ''secret_user_id'' \<or> key = ''secret_object_id'')"
      by (rule system_key_is_not_contact)
    then show ?thesis
      using True pop_present [OF present] by (simp add: dv2_def removed_def)
  next
    case False
    then show ?thesis
      using pop_present [OF present] by (simp add: dv2_def removed_def)
  qed
  have sub: "set keys \<subseteq> fst ` set dv2"
  proof
    fix k assume k: "k \<in> set keys"
    then have "k \<in> fst ` set dv" using Cons.prems(2) by auto
    moreover have "k \<noteq> key" using k notin by auto
    ultimately show "k \<in> fst ` set dv2" by (auto simp: dv2_def)
  qed
  have "process_dynamic_variables_keys keys dv2 =
      Inr (filter (\<lambda>kv. \<not> (fst kv \<in> set keys \<and> removed (fst kv))) dv2)"
    using Cons.IH [OF dist sub] by (simp add: removed_def)
  also have "filter (\<lambda>kv. \<not> (fst kv \<in> set keys \<and> removed (fst kv))) dv2 =
      filter (\<lambda>kv. \<not> (fst kv \<in> set (key # keys) \<and> removed (fst kv))) dv"
    by (auto simp: dv2_def intro: filter_cong)
  finally show ?case using step by (simp add: removed_def)
qed

text \<open>
  C5: from a dictionary of dynamic variables \<open>process_dynamic_variables\<close> returns the
  entries, in their order, whose key neither starts with "system" nor is one of email,
  phone, secret_user_id and secret_object_id: those keys are removed, every other entry
  is kept with its value. No key is popped twice, so the loop does not raise.
\<close>

theorem process_dynamic_variables_filters:
  assumes "conversation_initiation_client_data raw_details = Some client_data"
    and "dynamic_variables client_data = Some d"
    and "distinct (map fst d)"
  shows "process_dynamic_variables raw_details =
     Inr (filter (\<lambda>kv. \<not> startswith (fst kv) ''system''
                    \<and> fst kv \<notin> {''email'', ''phone'', ''secret_user_id'', ''secret_object_id''}) d)"
proof -
  have "process_dynamic_variables raw_details = process_dynamic_variables_keys (map fst d) d"
    using assms(1,2) by (simp add: process_dynamic_variables_def)
  also have "\<dots> = Inr (filter (\<lambda>kv. \<not> (fst kv \<in> set (map fst d)
                 \<and> (startswith (fst kv) ''system'' \<or> fst kv = ''email'' \<or> fst kv = ''phone''
                    \<or> fst kv = ''secret_user_id'' \<or> fst kv = ''secret_object_id''))) d)"
    by (rule process_dynamic_variables_keys_filter [OF assms(3)]) simp
  also have "filter (\<lambda>kv. \<not> (fst kv \<in> set (map fst d)
                 \<and> (startswith (fst kv) ''system'' \<or> fst kv = ''email'' \<or> fst kv = ''phone''
                    \<or> fst kv = ''secret_user_id'' \<or> fst kv = ''secret_object_id''))) d
      = filter (\<lambda>kv. \<not> startswith (fst kv) ''system''
                    \<and> fst kv \<notin> {''email'', ''phone'', ''secret_user_id'', ''secret_object_id''}) d"
    by (rule filter_cong) auto
  finally show ?thesis .
qed

theorem process_dynamic_variables_filters_witness:
  "process_dynamic_variables example_raw_details = Inr [(''other'', StrValue ''v'')]"
proof -
  define d where "d = [(''system_x'', IntValue 1), (''email'', StrValue ''a@b.com''),
            (''phone'', StrValue ''123''), (''secret_user_id'', StrValue ''u1''),
            (''other'', StrValue ''v'')]"
  have a: "conversation_initiation_client_data example_raw_details
      = Some \<lparr>dynamic_variables = Some d\<rparr>"
    by (simp add: example_raw_details_def d_def)
  have b: "dynamic_variables \<lparr>dynamic_variables = Some d\<rparr> = Some d" by simp
  have c: "distinct (map fst d)" by (simp add: d_def)
  show ?thesis
    using process_dynamic_variables_filters [OF a b c] by (simp add: d_def)
qed

section \<open>The bulk updater\<close>

lemma update_agents_calls:
  assumes "update_agents client self acls ids = Inr (acls', calls)"
    and "variable_name self = Some name"
    and "variable_type self = Some vtype"
    and "variable_prompt self = Some prompt"
  shows "map fst calls = ids
     \<and> (\<forall>(aid, pushed) \<in> set calls.
          \<exists>agent settings dc.
              get_agent acls aid = Some agent
            \<and> platform_settings agent = Some settings
            \<and> data_collection settings = Some dc
            \<and> pushed = dc(name \<mapsto> \<lparr>p_type = vtype, p_description = Some prompt, p_other = []\<rparr>))"
  using assms(1)
proof (induction ids arbitrary: acls calls)
  case Nil
  then show ?case by simp
next
  case (Cons a ids)
  define vs where "vs = \<lparr>p_type = vtype, p_description = Some prompt, p_other = []\<rparr>"
  from Cons.prems assms(2-4) obtain agent settings dc calls1 where
    ag: "get_agent acls a = Some agent"
    and st: "platform_settings agent = Some settings"
    and dc: "data_collection settings = Some dc"
    and rest: "update_agents client self
        (acls\<lparr>agents := (agents acls)(a \<mapsto>
            agent\<lparr>platform_settings := Some (settings\<lparr>data_collection := Some (dc(name \<mapsto> vs))\<rparr>)\<rparr>)\<rparr>)
        ids = Inr (acls', calls1)"
    and calls: "calls = (a, dc(name \<mapsto> vs)) # calls1"
    by (auto simp: Let_def vs_def split: option.splits sum.splits prod.splits)
  note IH = Cons.IH [OF rest]
  have fst: "map fst calls = a # ids" using IH calls by simp
  have each: "\<exists>agent settings dc.
              get_agent acls aid = Some agent
            \<and> platform_settings agent = Some settings
            \<and> data_collection settings = Some dc
            \<and> pushed = dc(name \<mapsto> vs)"
    if mem: "(aid, pushed) \<in> set calls" for aid pushed
  proof (cases "(aid, pushed) = (a, dc(name \<mapsto> vs))")
    case True
    then show ?thesis using ag st dc by auto
  next
    case False
    then have "(aid, pushed) \<in> set calls1" using mem calls by auto
    with IH obtain agent1 settings1 dc1 where
      a1: "get_agent (acls\<lparr>agents := (agents acls)(a \<mapsto>
            agent\<lparr>platform_settings := Some (settings\<lparr>data_collection := Some (dc(name \<mapsto> vs))\<rparr>)\<rparr>)\<rparr>)
            aid = Some agent1"
      and s1: "platform_settings agent1 = Some settings1"
      and d1: "data_collection settings1 = Some dc1"
      and p1: "pushed = dc1(name \<mapsto> vs)"
      unfolding vs_def by fastforce
    show ?thesis
    proof (cases "aid = a")
      case True
      then have "dc1 = dc(name \<mapsto> vs)"
        using a1 s1 d1 by (auto simp: get_agent_def)
      then have "pushed = dc(name \<mapsto> vs)" using p1 by simp
      then show ?thesis using ag st dc True by auto
    next
      case False
      then have "get_agent acls aid = Some agent1"
        using a1 by (simp add: get_agent_def)
      then show ?thesis using s1 d1 p1 by auto
    qed
  qed
  show ?case using fst each unfolding vs_def by blast
qed

text \<open>
  C9: when \<open>update\<close> returns, it has made one update call for each selected agent id,
  in order, each addressed to that id alone. The data-collection mapping a call carries
  is the schema the catalog holds for that agent when \<open>update\<close> starts, with the entry
  of the configured variable name set to the property made of the configured type and
  prompt; every other key has the value it has in that schema.
\<close>

theorem update_pushes_schema_with_variable:
  assumes "update client (acls, ucls, self) = Inr (acls', calls)"
    and "variable_name self = Some name"
    and "variable_type self = Some vtype"
    and "variable_prompt self = Some prompt"
  shows "map fst calls = selected_agent_ids (acls, ucls, self)
     \<and> (\<forall>(aid, pushed) \<in> set calls.
          \<exists>agent settings dc.
              get_agent acls aid = Some agent
            \<and> platform_settings agent = Some settings
            \<and> data_collection settings = Some dc
            \<and> pushed = dc(name \<mapsto> \<lparr>p_type = vtype, p_description = Some prompt, p_other = []\<rparr>)
            \<and> (\<forall>k. k \<noteq> name \<longrightarrow> pushed k = dc k))"
proof -
  have run: "update_agents client self acls (selected_agent_ids (acls, ucls, self)) = Inr (acls', calls)"
    using assms(1) by (simp add: update_def)
  from update_agents_calls [OF run assms(2-4)]
  show ?thesis by fastforce
qed

subsection \<open>Evaluating an update on the example data\<close>

lemmas ev_catalog = AgentConnection_class_body_def AgentConnection_init_def example_client_def
  get_agent_groups_def lower_def append_at_def generate_dictionary_keys_def
  AgentGroup_members_def Let_def get_agent_group_ids_def

lemma example_update_returns:
  "\<exists>acls ucls self w acls' calls.
     DataCollectionUpdater_init example_client
       (AgentConnection_class_body, DataCollectionUpdater_class_body) = Inr (acls, ucls, self)
     \<and> set_agent_group
         (acls, ucls, set_variable_type (set_variable_name self ''demoVerbalizada'') BOOLEAN)
         ELENA = Inr w
     \<and> variable_name (set_variable_prompt (snd (snd w)) example_prompt) = Some ''demoVerbalizada''
     \<and> variable_type (set_variable_prompt (snd (snd w)) example_prompt) = Some ''boolean''
     \<and> variable_prompt (set_variable_prompt (snd (snd w)) example_prompt) = Some example_prompt
     \<and> selected_agent_ids (fst w, fst (snd w), set_variable_prompt (snd (snd w)) example_prompt)
         = [''agent_1'']
     \<and> (\<forall>aid. get_agent (fst w) aid \<noteq> None \<longrightarrow>
           get_agent (fst w) aid =
             Some \<lparr>platform_settings = Some \<lparr>data_collection = Some example_schema\<rparr>\<rparr>)
     \<and> update example_client
         (fst w, fst (snd w), set_variable_prompt (snd (snd w)) example_prompt)
         = Inr (acls', calls)"
  by (simp add: DataCollectionUpdater_init_def DataCollectionUpdater_class_body_def ev_catalog
      set_agent_group_def set_variable_name_def set_variable_type_def set_variable_prompt_def
      update_def selected_agent_ids_def get_agent_def)

theorem update_pushes_schema_with_variable_witness:
  "\<exists>acls ucls self w acls' pushed.
     DataCollectionUpdater_init example_client
       (AgentConnection_class_body, DataCollectionUpdater_class_body) = Inr (acls, ucls, self)
     \<and> set_agent_group
         (acls, ucls, set_variable_type (set_variable_name self ''demoVerbalizada'') BOOLEAN)
         ELENA = Inr w
     \<and> update example_client
         (fst w, fst (snd w), set_variable_prompt (snd (snd w)) example_prompt)
         = Inr (acls', [(''agent_1'', pushed)])
     \<and> pushed ''demoVerbalizada'' =
           Some \<lparr>p_type = ''boolean'', p_description = Some example_prompt, p_other = []\<rparr>
     \<and> pushed ''budget'' = example_schema ''budget''"
proof -
  from example_update_returns obtain acls ucls self w acls' calls where
    init: "DataCollectionUpdater_init example_client
       (AgentConnection_class_body, DataCollectionUpdater_class_body) = Inr (acls, ucls, self)"
    and grp: "set_agent_group
         (acls, ucls, set_variable_type (set_variable_name self ''demoVerbalizada'') BOOLEAN)
         ELENA = Inr w"
    and n: "variable_name (set_variable_prompt (snd (snd w)) example_prompt) = Some ''demoVerbalizada''"
    and t: "variable_type (set_variable_prompt (snd (snd w)) example_prompt) = Some ''boolean''"
    and p: "variable_prompt (set_variable_prompt (snd (snd w)) example_prompt) = Some example_prompt"
    and sel: "selected_agent_ids (fst w, fst (snd w), set_variable_prompt (snd (snd w)) example_prompt)
         = [''agent_1'']"
    and cache: "\<forall>aid. get_agent (fst w) aid \<noteq> None \<longrightarrow>
           get_agent (fst w) aid =
             Some \<lparr>platform_settings = Some \<lparr>data_collection = Some example_schema\<rparr>\<rparr>"
    and run: "update example_client
         (fst w, fst (snd w), set_variable_prompt (snd (snd w)) example_prompt)
         = Inr (acls', calls)"
    by blast
  note r = update_pushes_schema_with_variable [OF run n t p]
  have ids: "map fst calls = [''agent_1'']" using r sel by simp
  then obtain pushed where calls: "calls = [(''agent_1'', pushed)]" by auto
  then have mem: "(''agent_1'', pushed) \<in> set calls" by simp
  from r mem obtain agent settings dc where
    a: "get_agent (fst w) ''agent_1'' = Some agent"
    and s: "platform_settings agent = Some settings"
    and d: "data_collection settings = Some dc"
    and e: "pushed = dc(''demoVerbalizada'' \<mapsto>
        \<lparr>p_type = ''boolean'', p_description = Some example_prompt, p_other = []\<rparr>)"
    by fastforce
  have "agent = \<lparr>platform_settings = Some \<lparr>data_collection = Some example_schema\<rparr>\<rparr>"
    using cache a by auto
  then have "dc = example_schema" using s d by auto
  then have v: "pushed ''demoVerbalizada'' =
           Some \<lparr>p_type = ''boolean'', p_description = Some example_prompt, p_other = []\<rparr>"
    and k: "pushed ''budget'' = example_schema ''budget''"
    using e by simp_all
  show ?thesis
    by (intro exI conjI) (rule init, rule grp, rule run [unfolded calls], rule v, rule k)
qed

section \<open>Instances and the containers of their classes\<close>

text \<open>
  C1 against the sources: the containers are objects of the classes, not of the
  instances. An instance on which no filter was ever set builds with the ids that another
  instance accepted, and indexes one of the four listed conversations. A second agent
  catalog appends its agents to the list the first one filled, while its per-group index,
  assigned in the constructor, is its own. A second updater, on which no agent was
  selected, starts with the selection made on the first.
\<close>

theorem containers_shared_between_instances:
  "(\<exists>s. set_accepted_agent_ids (ConversationConnection_class_body, ConversationConnection_init)
            [''agent_3''] = s
       \<and> agent_connection (snd s) = None
       \<and> conversation_ids_per_agent_group (snd s) = None
       \<and> (\<exists>s'. build utc_localtime example_list (fst s, ConversationConnection_init) = Some (Inr s')
             \<and> get_all_conversation_ids s' = [''conv_4'']))
   \<and> (\<exists>cls1 c1 cls2 c2.
         AgentConnection_init example_client AgentConnection_class_body = Inr (cls1, c1)
       \<and> AgentConnection_init example_client cls1 = Inr (cls2, c2)
       \<and> get_all_agent_ids (cls1, c1) = [''agent_1'', ''agent_2'', ''agent_3'']
       \<and> get_all_agent_ids (cls2, c2) =
           [''agent_1'', ''agent_2'', ''agent_3'', ''agent_1'', ''agent_2'', ''agent_3'']
       \<and> get_agent_group_ids c2 COACH = Inr [''agent_3''])
   \<and> (\<exists>acls ucls u1 w acls2 ucls2 u2.
         DataCollectionUpdater_init example_client
           (AgentConnection_class_body, DataCollectionUpdater_class_body) = Inr (acls, ucls, u1)
       \<and> set_agent_group (acls, ucls, u1) ELENA = Inr w
       \<and> DataCollectionUpdater_init example_client (fst w, fst (snd w)) = Inr (acls2, ucls2, u2)
       \<and> agent_ids_rebound u2 = False
       \<and> selected_agent_ids (acls2, ucls2, u2) = [''agent_1''])"
proof (intro conjI)
  show "\<exists>s. set_accepted_agent_ids (ConversationConnection_class_body, ConversationConnection_init)
            [''agent_3''] = s
       \<and> agent_connection (snd s) = None
       \<and> conversation_ids_per_agent_group (snd s) = None
       \<and> (\<exists>s'. build utc_localtime example_list (fst s, ConversationConnection_init) = Some (Inr s')
             \<and> get_all_conversation_ids s' = [''conv_4''])"
    by (simp add: get_all_conversation_ids_def ev)
  show "\<exists>cls1 c1 cls2 c2.
         AgentConnection_init example_client AgentConnection_class_body = Inr (cls1, c1)
       \<and> AgentConnection_init example_client cls1 = Inr (cls2, c2)
       \<and> get_all_agent_ids (cls1, c1) = [''agent_1'', ''agent_2'', ''agent_3'']
       \<and> get_all_agent_ids (cls2, c2) =
           [''agent_1'', ''agent_2'', ''agent_3'', ''agent_1'', ''agent_2'', ''agent_3'']
       \<and> get_agent_group_ids c2 COACH = Inr [''agent_3'']"
    by (simp add: get_all_agent_ids_def ev_catalog)
  show "\<exists>acls ucls u1 w acls2 ucls2 u2.
         DataCollectionUpdater_init example_client
           (AgentConnection_class_body, DataCollectionUpdater_class_body) = Inr (acls, ucls, u1)
       \<and> set_agent_group (acls, ucls, u1) ELENA = Inr w
       \<and> DataCollectionUpdater_init example_client (fst w, fst (snd w)) = Inr (acls2, ucls2, u2)
       \<and> agent_ids_rebound u2 = False
       \<and> selected_agent_ids (acls2, ucls2, u2) = [''agent_1'']"
    by (simp add: DataCollectionUpdater_init_def DataCollectionUpdater_class_body_def ev_catalog
        set_agent_group_def selected_agent_ids_def)
qed

end
